theory Spec2Isabelle
  imports Main "HOL-Library.Sublist"
begin

section \<open>Strings\<close>

text \<open>
  Python \<open>str\<close> values are modelled as \<open>string\<close>: the characters are the bytes of the
  UTF-8 encoding. \<open>str.lower()\<close> is modelled on the ASCII letters; every keyword and role
  name the code compares against is lower-case ASCII.  The test \<open>sub in s\<close> on strings
  is \<open>sublist sub s\<close> (a contiguous run of \<open>s\<close>).
\<close>

definition lower_char :: "char \<Rightarrow> char" where
  "lower_char c =
     (case map_of (zip ''ABCDEFGHIJKLMNOPQRSTUVWXYZ'' ''abcdefghijklmnopqrstuvwxyz'') c of
        Some d \<Rightarrow> d
      | None \<Rightarrow> c)"

definition lower :: "string \<Rightarrow> string" where
  "lower s = map lower_char s"

text \<open>\<open>d.get(key, default)\<close> on a dictionary kept as an association list.\<close>

definition dict_get :: "('k \<times> 'v) list \<Rightarrow> 'k \<Rightarrow> 'v \<Rightarrow> 'v" where
  "dict_get d k dflt = (case map_of d k of Some v \<Rightarrow> v | None \<Rightarrow> dflt)"

text \<open>\<open>d[key] += 1\<close> on a dictionary of counters that holds \<open>key\<close>.\<close>

definition dict_incr :: "('k \<times> nat) list \<Rightarrow> 'k \<Rightarrow> ('k \<times> nat) list" where
  "dict_incr d k = map (\<lambda>(k', n). if k' = k then (k', Suc n) else (k', n)) d"

definition dict_has :: "('k \<times> 'v) list \<Rightarrow> 'k \<Rightarrow> bool" where
  "dict_has d k = (k \<in> set (map fst d))"

section \<open>Severity classification (\<open>fast_validator.py\<close>, \<open>_determine_severity\<close>)\<close>

definition severity_names :: "string list" where
  "severity_names = [''fatal'', ''error'', ''warning'', ''info'']"

definition fatal_words :: "string list" where
  "fatal_words = [''fatal'', ''critical'', ''must not'', ''required'']"

definition error_words :: "string list" where
  "error_words = [''error'', ''invalid'', ''violation'', ''shall not'']"

definition warning_words :: "string list" where
  "warning_words = [''warning'', ''should'', ''recommend'']"

definition info_words :: "string list" where
  "info_words = [''info'', ''information'', ''note'']"

text \<open>\<open>any(word in message_lower for word in words)\<close>.\<close>

definition any_word_in :: "string list \<Rightarrow> string \<Rightarrow> bool" where
  "any_word_in ws s = list_ex (\<lambda>word. sublist word s) ws"

definition determine_severity :: "string \<Rightarrow> string \<Rightarrow> string \<Rightarrow> string" where
  "determine_severity role message test =
     (let role_lower = lower role in
      if role_lower \<in> set severity_names then role_lower
      else
        let message_lower = lower message in
        if any_word_in fatal_words message_lower then ''fatal''
        else if any_word_in error_words message_lower then ''error''
        else if any_word_in warning_words message_lower then ''warning''
        else if any_word_in info_words message_lower then ''info''
        else
          let test_lower = lower test in
          if sublist ''not('' test_lower \<or> sublist ''false()'' test_lower then ''error''
          else ''error'')"

section \<open>The SVRL analyzer (\<open>fast_validator.py\<close>, \<open>_analyze_svrl_output\<close>)\<close>

text \<open>
  An element of \<open>xml.etree.ElementTree\<close>: its qualified tag, its attributes, its text
  (\<open>None\<close> when the element has none) and its children in document order.
\<close>

datatype element =
  Element (tag: string) (attrib: "(string \<times> string) list") (elem_text: "string option")
    (children: "element list")

definition svrl :: "string \<Rightarrow> string" where
  "svrl local = ''{http://purl.oclc.org/dsdl/svrl}'' @ local"

text \<open>All elements below \<open>e\<close>, in document order (\<open>e\<close> itself excluded).\<close>

fun descendants :: "element \<Rightarrow> element list" where
  "descendants (Element t a x cs) = concat (map (\<lambda>c. c # descendants c) cs)"

text \<open>\<open>root.findall('.//svrl:name', ns)\<close> and \<open>e.find('svrl:name', ns)\<close>.\<close>

definition findall :: "element \<Rightarrow> string \<Rightarrow> element list" where
  "findall root local = filter (\<lambda>e. tag e = svrl local) (descendants root)"

definition find_child :: "element \<Rightarrow> string \<Rightarrow> element option" where
  "find_child e local = find (\<lambda>c. tag c = svrl local) (children e)"

text \<open>
  One entry of \<open>result['error_details']\<close>.  \<open>message\<close> is \<open>None\<close> when the text element
  is empty; \<open>rule_id\<close> is \<open>None\<close> when the key is not set.
\<close>

record error_detail =
  location :: string
  test :: string
  message :: "string option"
  severity :: string
  role :: string
  rule_id :: "string option"

text \<open>
  The dictionary \<open>result\<close> that \<open>_validate_against_xslt\<close> builds.  The keys \<open>error\<close>,
  \<open>severity_breakdown\<close> and \<open>error_details\<close> are set on some paths only, hence the
  options.  The wall-clock field \<open>time\<close> is a float read from the system clock and is
  left out.
\<close>

record run =
  xslt_file :: string
  success :: bool
  svrl_output :: string
  fired_rules :: nat
  failed_assertions :: nat
  successful_reports :: nat
  error :: "string option"
  severity_breakdown :: "(string \<times> nat) list option"
  error_details :: "error_detail list option"

definition initial_breakdown :: "(string \<times> nat) list" where
  "initial_breakdown = [(''fatal'', 0), (''error'', 0), (''warning'', 0), (''info'', 0)]"

text \<open>The text of a truthy optional string, \<open>message or 'No message'\<close>.\<close>

definition or_default :: "string option \<Rightarrow> string \<Rightarrow> string" where
  "or_default m dflt = (case m of None \<Rightarrow> dflt | Some s \<Rightarrow> if s = [] then dflt else s)"

text \<open>The body of the loop over the failed assertions, for one assertion.\<close>

definition analyze_assertion :: "run \<Rightarrow> element \<Rightarrow> run" where
  "analyze_assertion result assertion =
     (let location = dict_get (attrib assertion) ''location'' ''Unknown'';
          test = dict_get (attrib assertion) ''test'' ''Unknown'';
          role = dict_get (attrib assertion) ''role'' ''error'';
          text_elem = find_child assertion ''text'';
          message = (case text_elem of Some t \<Rightarrow> elem_text t | None \<Rightarrow> Some ''No message'');
          severity = determine_severity role (or_default message ''No message'') test;
          breakdown = (case severity_breakdown result of Some b \<Rightarrow> b | None \<Rightarrow> []);
          breakdown' = (if dict_has breakdown severity then dict_incr breakdown severity
                        else dict_incr breakdown ''error'');
          rule_elem = find_child assertion ''rule'';
          detail = \<lparr> location = location, test = test, message = message,
                     severity = severity, role = role,
                     rule_id = (case rule_elem of
                                  Some r \<Rightarrow> Some (dict_get (attrib r) ''id'' ''Unknown'')
                                | None \<Rightarrow> None) \<rparr>
      in result\<lparr> severity_breakdown := Some breakdown',
                 error_details := Some ((case error_details result of Some ds \<Rightarrow> ds
                                         | None \<Rightarrow> []) @ [detail]) \<rparr>)"

definition parse_warning :: string where
  "parse_warning = ''Warning: Could not parse SVRL output''"

text \<open>
  \<open>ET.fromstring\<close> is the parser of the standard library: it is a parameter, \<open>None\<close>
  standing for a raised \<open>ParseError\<close>.  The function returns the updated \<open>result\<close> and
  the warning lines it printed; its \<open>except Exception\<close> clause makes it return on every
  path.
\<close>

definition analyze_svrl_output ::
    "(string \<Rightarrow> element option) \<Rightarrow> string \<Rightarrow> run \<Rightarrow> run \<times> string list" where
  "analyze_svrl_output fromstring output result =
     (case fromstring output of
        None \<Rightarrow> (result, [parse_warning])
      | Some root \<Rightarrow>
          let fired = findall root ''fired-rule'';
              failed = findall root ''failed-assert'';
              reports = findall root ''successful-report'';
              result1 = result\<lparr> fired_rules := length fired,
                                 failed_assertions := length failed,
                                 successful_reports := length reports,
                                 severity_breakdown := Some initial_breakdown \<rparr>
          in if failed \<noteq> []
             then (foldl analyze_assertion (result1\<lparr> error_details := Some [] \<rparr>) failed, [])
             else (result1, []))"

text \<open>The severities of the findings recorded in a result, in order.\<close>

definition severities :: "run \<Rightarrow> string list" where
  "severities r = (case error_details r of Some ds \<Rightarrow> map severity ds | None \<Rightarrow> [])"

text \<open>The declared roles recorded with the findings of a result, in order.\<close>

definition roles :: "run \<Rightarrow> string list" where
  "roles r = (case error_details r of Some ds \<Rightarrow> map role ds | None \<Rightarrow> [])"

section \<open>Files and the external engine\<close>

text \<open>
  A \<open>pathlib.Path\<close> with the parts the code reads: \<open>str(p)\<close>, \<open>p.name\<close> and \<open>p.stem\<close>.
\<close>

record path =
  parent :: string
  stem :: string
  suffix :: string

definition name :: "path \<Rightarrow> string" where
  "name p = stem p @ suffix p"

definition str :: "path \<Rightarrow> string" where
  "str p = parent p @ ''/'' @ name p"

text \<open>\<open>directory / f"{stem}{ext}"\<close>.\<close>

definition in_dir :: "string \<Rightarrow> string \<Rightarrow> string \<Rightarrow> path" where
  "in_dir d s ext = \<lparr> parent = d, stem = s, suffix = ext \<rparr>"

text \<open>
  The file system maps a path to what is there: nothing, a directory, or a file with its
  content.  A file whose flag is \<open>False\<close> cannot be opened (\<open>open\<close> raises).
\<close>

datatype node = Missing | Directory | File bool string

type_synonym fs = "string \<Rightarrow> node"

definition exists :: "fs \<Rightarrow> string \<Rightarrow> bool" where
  "exists files p = (files p \<noteq> Missing)"

text \<open>\<open>open(p).read()\<close>: \<open>None\<close> when the call raises.\<close>

definition read_file :: "fs \<Rightarrow> string \<Rightarrow> string option" where
  "read_file files p = (case files p of File True c \<Rightarrow> Some c | _ \<Rightarrow> None)"

text \<open>\<open>open(p, 'w').write(c)\<close>: \<open>None\<close> when the call raises.\<close>

definition write_file :: "fs \<Rightarrow> string \<Rightarrow> string \<Rightarrow> fs option" where
  "write_file files p c =
     (case files p of
        Directory \<Rightarrow> None
      | File False _ \<Rightarrow> None
      | _ \<Rightarrow> Some (files(p := File True c)))"

text \<open>\<open>p.unlink()\<close> of an existing path: \<open>None\<close> when the call raises.\<close>

definition unlink :: "fs \<Rightarrow> string \<Rightarrow> fs option" where
  "unlink files p =
     (case files p of
        File _ _ \<Rightarrow> Some (files(p := Missing))
      | _ \<Rightarrow> None)"

text \<open>
  What \<open>compile_stylesheet\<close> gives back: an executable, a falsy value, or an exception.
\<close>

datatype 'x compiled = Executable 'x | Falsy | Compile_raises

text \<open>
  What \<open>transform_to_string\<close> gives back: the output with the processor's
  \<open>exception_occurred\<close> flag clear, the flag set (with \<open>error_message\<close>), or an
  exception (with its text).
\<close>

datatype transformed = Returned string | Faulted string | Raised string

text \<open>How a call of \<open>transform_to_file\<close> ends, next to the file system it leaves.\<close>

datatype status = Done | Fault | Raise

text \<open>
  Everything outside the two source files is a parameter: the Saxon processor, the XML
  parser, the hash function, the clock (already printed as \<open>int(time.time())\<close>), the
  directory listing \<open>glob\<close>, \<open>stat().st_size\<close> and \<open>Path(s).stem\<close> of a path
  given as a string.
\<close>

record 'x env =
  compile_stylesheet :: "string \<Rightarrow> 'x compiled"
  transform_to_string :: "'x \<Rightarrow> string \<Rightarrow> transformed"
  transform_to_file :: "'x \<Rightarrow> fs \<Rightarrow> string \<Rightarrow> string \<Rightarrow> fs \<times> status"
  fromstring :: "string \<Rightarrow> element option"
  md5 :: "string \<Rightarrow> string"
  now :: string
  glob :: "fs \<Rightarrow> string \<Rightarrow> string \<Rightarrow> path list"
  st_size :: "fs \<Rightarrow> string \<Rightarrow> nat"
  path_stem :: "string \<Rightarrow> string"

section \<open>The stylesheet executable cache (\<open>fast_validator.py\<close>, \<open>get_compiled_xslt\<close>)\<close>

text \<open>
  The validator object: \<open>xslt_cache\<close> and the counters of \<open>stats\<close> (\<open>total_time\<close> is a
  float and is left out).  \<open>compile_calls\<close> is not a field of the class: it lists the
  arguments of the calls of the engine's \<open>compile_stylesheet\<close> made so far, so that the
  number of engine calls can be stated.  \<open>warnings\<close> holds the warning lines printed.
\<close>

record 'x validator =
  xslt_cache :: "string \<rightharpoonup> 'x"
  cache_hits :: nat
  total_validations :: nat
  largest_file_size :: nat
  compile_calls :: "string list"
  warnings :: "string list"

definition get_compiled_xslt ::
    "'x env \<Rightarrow> fs \<Rightarrow> 'x validator \<Rightarrow> path \<Rightarrow> 'x option \<times> 'x validator" where
  "get_compiled_xslt e files v xsl_file =
     (let cache_key = str xsl_file in
      case xslt_cache v cache_key of
        Some x \<Rightarrow> (Some x, v\<lparr> cache_hits := cache_hits v + 1 \<rparr>)
      | None \<Rightarrow>
          if \<not> exists files cache_key then (None, v)
          else
            let v1 = v\<lparr> compile_calls := compile_calls v @ [cache_key] \<rparr> in
            case compile_stylesheet e cache_key of
              Compile_raises \<Rightarrow> (None, v1)
            | Falsy \<Rightarrow> (None, v1)
            | Executable x \<Rightarrow> (Some x, v1\<lparr> xslt_cache := (xslt_cache v1)(cache_key \<mapsto> x) \<rparr>))"

section \<open>Validation of one document (\<open>fast_validator.py\<close>)\<close>

definition initial_run :: "path \<Rightarrow> run" where
  "initial_run xsl_file =
     \<lparr> xslt_file = str xsl_file, success = False, svrl_output = [],
       fired_rules = 0, failed_assertions = 0, successful_reports = 0,
       error = None, severity_breakdown = None, error_details = None \<rparr>"

definition validate_against_xslt ::
    "'x env \<Rightarrow> fs \<Rightarrow> 'x validator \<Rightarrow> path \<Rightarrow> path \<Rightarrow> run \<times> 'x validator" where
  "validate_against_xslt e files v xml_file xsl_file =
     (let result = initial_run xsl_file in
      case get_compiled_xslt e files v xsl_file of
        (None, v1) \<Rightarrow> (result\<lparr> error := Some ''Failed to compile XSLT'' \<rparr>, v1)
      | (Some x, v1) \<Rightarrow>
          (case transform_to_string e x (str xml_file) of
             Raised msg \<Rightarrow> (result\<lparr> error := Some msg \<rparr>, v1)
           | Faulted msg \<Rightarrow>
               (result\<lparr> error := Some (''XSLT transformation failed: '' @ msg) \<rparr>, v1)
           | Returned output \<Rightarrow>
               let result1 = result\<lparr> svrl_output := output, success := True \<rparr>;
                   (result2, ws) = analyze_svrl_output (fromstring e) output result1
               in (result2, v1\<lparr> warnings := warnings v1 @ ws \<rparr>)))"

text \<open>
  An entry of \<open>results['xslt_results']\<close>: the short dictionary for a stylesheet that
  is not on disk (\<open>xslt_file\<close>, \<open>success = False\<close>, \<open>error\<close>), or the result of a run.
\<close>

datatype xslt_result = Not_found string string | Ran run

fun result_success :: "xslt_result \<Rightarrow> bool" where
  "result_success (Not_found f msg) = False"
| "result_success (Ran r) = success r"

text \<open>\<open>result.get('fired_rules', 0)\<close> and its two siblings.\<close>

fun get_fired_rules :: "xslt_result \<Rightarrow> nat" where
  "get_fired_rules (Not_found f msg) = 0"
| "get_fired_rules (Ran r) = fired_rules r"

fun get_failed_assertions :: "xslt_result \<Rightarrow> nat" where
  "get_failed_assertions (Not_found f msg) = 0"
| "get_failed_assertions (Ran r) = failed_assertions r"

fun get_successful_reports :: "xslt_result \<Rightarrow> nat" where
  "get_successful_reports (Not_found f msg) = 0"
| "get_successful_reports (Ran r) = successful_reports r"

text \<open>The dictionary \<open>results\<close> of \<open>validate_xml_file\<close> (\<open>total_time\<close> left out).\<close>

record document_result =
  xml_file :: string
  file_size :: nat
  xslt_results :: "xslt_result list"
  doc_success :: bool
  total_fired_rules :: nat
  total_failed_assertions :: nat
  total_successful_reports :: nat

text \<open>The body of the loop over \<open>xsl_files\<close>.\<close>

definition validate_step ::
    "'x env \<Rightarrow> fs \<Rightarrow> path \<Rightarrow> document_result \<times> 'x validator \<Rightarrow> path
     \<Rightarrow> document_result \<times> 'x validator" where
  "validate_step e files xml acc xsl_file =
     (let (results, v) = acc in
      if \<not> exists files (str xsl_file)
      then (results\<lparr> xslt_results := xslt_results results @
                        [Not_found (str xsl_file) (''XSLT file not found: '' @ str xsl_file)],
                     doc_success := False \<rparr>, v)
      else
        let (result, v1) = validate_against_xslt e files v xml xsl_file;
            results1 = results\<lparr> xslt_results := xslt_results results @ [Ran result] \<rparr>
        in if success result
           then (results1\<lparr> total_fired_rules := total_fired_rules results1 + fired_rules result,
                           total_failed_assertions :=
                             total_failed_assertions results1 + failed_assertions result,
                           total_successful_reports :=
                             total_successful_reports results1 + successful_reports result \<rparr>,
                 v1)
           else (results1\<lparr> doc_success := False \<rparr>, v1))"

text \<open>
  \<open>validate_xml_file\<close>: \<open>Inl\<close> is the dictionary returned for a document that is not on
  disk (\<open>success = False\<close> and \<open>error\<close>, no totals).
\<close>

definition validate_xml_file ::
    "'x env \<Rightarrow> fs \<Rightarrow> 'x validator \<Rightarrow> path \<Rightarrow> path list
     \<Rightarrow> (string + document_result) \<times> 'x validator" where
  "validate_xml_file e files v xml xsl_files =
     (if \<not> exists files (str xml) then (Inl (''XML file not found: '' @ str xml), v)
      else
        let size = st_size e files (str xml);
            v0 = v\<lparr> largest_file_size := max (largest_file_size v) size \<rparr>;
            results0 = \<lparr> xml_file = str xml, file_size = size, xslt_results = [],
                         doc_success = True, total_fired_rules = 0,
                         total_failed_assertions = 0, total_successful_reports = 0 \<rparr>;
            (results, v1) = foldl (validate_step e files xml) (results0, v0) xsl_files
        in (Inr results, v1\<lparr> total_validations := total_validations v1 + 1 \<rparr>))"

section \<open>The JSON report (\<open>fast_validator.py\<close>, \<open>_create_json_result\<close>)\<close>

text \<open>One entry of \<open>schematron_results\<close> (\<open>processing_time_seconds\<close> left out).\<close>

record schematron_result =
  schematron_name :: string
  sr_xslt_file :: string
  rules_fired :: nat
  sr_failed_assertions :: nat
  sr_successful_reports :: nat
  sr_severity_breakdown :: "(string \<times> nat) list"
  errors :: "error_detail list"

text \<open>
  The dictionary \<open>json_result\<close>, its nested dictionaries flattened; of the metadata only
  \<open>total_xslt_files_processed\<close> is kept (the rest are names, sizes and times).
\<close>

record json_result =
  total_xslt_files_processed :: nat
  validation_success :: bool
  total_rules_fired :: nat
  json_total_failed_assertions :: nat
  json_total_successful_reports :: nat
  is_valid :: bool
  overall_severity_breakdown :: "(string \<times> nat) list"
  schematron_results :: "schematron_result list"

text \<open>\<open>d[key] += n\<close> on a dictionary of counters that holds \<open>key\<close>.\<close>

definition dict_add :: "('k \<times> nat) list \<Rightarrow> 'k \<Rightarrow> nat \<Rightarrow> ('k \<times> nat) list" where
  "dict_add d k n = map (\<lambda>(k', m). if k' = k then (k', m + n) else (k', m)) d"

text \<open>The loop \<open>for severity, count in severity_breakdown.items()\<close>.\<close>

definition add_breakdown ::
    "(string \<times> nat) list \<Rightarrow> (string \<times> nat) list \<Rightarrow> (string \<times> nat) list" where
  "add_breakdown overall breakdown =
     foldl (\<lambda>acc (sev, count). if dict_has acc sev then dict_add acc sev count else acc)
       overall breakdown"

text \<open>\<open>error_info\<close>, copied key by key from an entry of \<open>error_details\<close>.\<close>

definition error_info :: "error_detail \<Rightarrow> error_detail" where
  "error_info err =
     \<lparr> location = location err, test = test err, message = message err,
       severity = severity err, role = role err, rule_id = rule_id err \<rparr>"

definition schematron_of :: "'x env \<Rightarrow> run \<Rightarrow> schematron_result" where
  "schematron_of e r =
     \<lparr> schematron_name = path_stem e (xslt_file r),
       sr_xslt_file = xslt_file r,
       rules_fired = fired_rules r,
       sr_failed_assertions = failed_assertions r,
       sr_successful_reports = successful_reports r,
       sr_severity_breakdown = (case severity_breakdown r of Some b \<Rightarrow> b | None \<Rightarrow> []),
       errors = map error_info (case error_details r of Some ds \<Rightarrow> ds | None \<Rightarrow> []) \<rparr>"

text \<open>The body of the loop over \<open>validation_result['xslt_results']\<close>.\<close>

fun json_step :: "'x env \<Rightarrow> json_result \<Rightarrow> xslt_result \<Rightarrow> json_result" where
  "json_step e j (Not_found f msg) = j"
| "json_step e j (Ran r) =
     (if \<not> success r then j
      else j\<lparr> overall_severity_breakdown :=
                 add_breakdown (overall_severity_breakdown j)
                   (case severity_breakdown r of Some b \<Rightarrow> b | None \<Rightarrow> []),
               schematron_results := schematron_results j @ [schematron_of e r] \<rparr>)"

definition create_json_result :: "'x env \<Rightarrow> document_result \<Rightarrow> json_result" where
  "create_json_result e validation_result =
     foldl (json_step e)
       \<lparr> total_xslt_files_processed = length (xslt_results validation_result),
         validation_success = doc_success validation_result,
         total_rules_fired = total_fired_rules validation_result,
         json_total_failed_assertions = total_failed_assertions validation_result,
         json_total_successful_reports = total_successful_reports validation_result,
         is_valid = (doc_success validation_result
                     \<and> total_failed_assertions validation_result = 0),
         overall_severity_breakdown = initial_breakdown,
         schematron_results = [] \<rparr>
       (xslt_results validation_result)"

text \<open>The runs that succeeded, in order: what the report is built from.\<close>

fun successful_runs :: "xslt_result list \<Rightarrow> run list" where
  "successful_runs [] = []"
| "successful_runs (Not_found f msg # rs) = successful_runs rs"
| "successful_runs (Ran r # rs) = (if success r then r # successful_runs rs else successful_runs rs)"

section \<open>The build cache (\<open>schematron_to_xslt_local.py\<close>)\<close>

text \<open>The directories the transformer object holds.\<close>

record config =
  base_dir :: string
  schematron_dir :: string
  output_dir :: string
  cache_dir :: string
  temp_dir :: string

datatype py_error = IOError | KeyError

text \<open>\<open>calculate_file_hash\<close>: the MD5 digest of the bytes, or the exception of \<open>open\<close>.\<close>

definition calculate_file_hash :: "'x env \<Rightarrow> fs \<Rightarrow> string \<Rightarrow> py_error + string" where
  "calculate_file_hash e files p =
     (case read_file files p of None \<Rightarrow> Inl IOError | Some bytes \<Rightarrow> Inr (md5 e bytes))"

text \<open>\<open>str.strip()\<close> and \<open>str.split('\n')\<close>, on ASCII white space.\<close>

definition is_space :: "char \<Rightarrow> bool" where
  "is_space c =
     (c \<in> set [CHR 0x09, CHR 0x0A, CHR 0x0B, CHR 0x0C, CHR 0x0D,
               CHR 0x1C, CHR 0x1D, CHR 0x1E, CHR 0x1F, CHR 0x20])"

definition strip :: "string \<Rightarrow> string" where
  "strip s = rev (dropWhile is_space (rev (dropWhile is_space s)))"

fun split_lines :: "string \<Rightarrow> string list" where
  "split_lines [] = [[]]"
| "split_lines (c # cs) =
     (if c = CHR 0x0A then [] # split_lines cs
      else (case split_lines cs of l # ls \<Rightarrow> (c # l) # ls | [] \<Rightarrow> [[c]]))"

definition cache_file_of :: "config \<Rightarrow> path \<Rightarrow> string" where
  "cache_file_of cfg sch_file = str (in_dir (cache_dir cfg) (stem sch_file) ''.cache'')"

definition output_file_of :: "config \<Rightarrow> path \<Rightarrow> string" where
  "output_file_of cfg sch_file = str (in_dir (output_dir cfg) (stem sch_file) ''.xsl'')"

text \<open>\<open>get_cache_info\<close>: the dictionary with \<open>hash\<close> and \<open>timestamp\<close>, or the empty one.\<close>

definition get_cache_info :: "fs \<Rightarrow> config \<Rightarrow> path \<Rightarrow> (string \<times> string) list" where
  "get_cache_info files cfg sch_file =
     (let cache_file = cache_file_of cfg sch_file in
      if exists files cache_file
      then (case read_file files cache_file of
              None \<Rightarrow> []
            | Some content \<Rightarrow>
                let lines = split_lines (strip content) in
                if length lines \<ge> 2
                then [(''hash'', lines ! 0), (''timestamp'', lines ! 1)]
                else [])
      else [])"

definition save_cache_info :: "'x env \<Rightarrow> fs \<Rightarrow> config \<Rightarrow> path \<Rightarrow> string \<Rightarrow> fs" where
  "save_cache_info e files cfg sch_file file_hash =
     (case write_file files (cache_file_of cfg sch_file)
             (file_hash @ [CHR 0x0A] @ now e @ [CHR 0x0A]) of
        Some files' \<Rightarrow> files'
      | None \<Rightarrow> files)"

definition needs_transformation ::
    "'x env \<Rightarrow> fs \<Rightarrow> config \<Rightarrow> path \<Rightarrow> py_error + bool" where
  "needs_transformation e files cfg sch_file =
     (let output_file = output_file_of cfg sch_file in
      if \<not> exists files output_file then Inr True
      else
        case calculate_file_hash e files (str sch_file) of
          Inl err \<Rightarrow> Inl err
        | Inr current_hash \<Rightarrow>
            let cache_info = get_cache_info files cfg sch_file in
            if map_of cache_info ''hash'' \<noteq> Some current_hash then Inr True
            else Inr False)"

section \<open>The compilation pipeline (\<open>schematron_to_xslt_local.py\<close>)\<close>

definition run_xslt_transformation ::
    "'x env \<Rightarrow> fs \<Rightarrow> string \<Rightarrow> string \<Rightarrow> string \<Rightarrow> bool \<times> fs" where
  "run_xslt_transformation e files source_file xsl_file output_file =
     (case compile_stylesheet e xsl_file of
        Compile_raises \<Rightarrow> (False, files)
      | Falsy \<Rightarrow> (False, files)
      | Executable x \<Rightarrow>
          (case transform_to_file e x files source_file output_file of
             (files', Done) \<Rightarrow> (True, files')
           | (files', Fault) \<Rightarrow> (False, files')
           | (files', Raise) \<Rightarrow> (False, files')))"

text \<open>
  \<open>re.search(r'(<(?:xsl:)?stylesheet[^>]*?)>', content)\<close>.  At one position the pattern
  matches when the text starts with the tag name and a \<open>>\<close> follows somewhere; the match
  then runs up to the first such \<open>>\<close>.  \<open>search_root\<close> gives \<open>match.group(0)\<close> of the
  leftmost match.
\<close>

definition match_tag :: "string \<Rightarrow> string \<Rightarrow> string option" where
  "match_tag t s =
     (if prefix t s \<and> CHR ''>'' \<in> set (drop (length t) s)
      then Some (t @ takeWhile (\<lambda>c. c \<noteq> CHR ''>'') (drop (length t) s) @ ''>'')
      else None)"

definition match_root_here :: "string \<Rightarrow> string option" where
  "match_root_here s =
     (case match_tag ''<xsl:stylesheet'' s of
        Some m \<Rightarrow> Some m
      | None \<Rightarrow> match_tag ''<stylesheet'' s)"

fun search_root :: "string \<Rightarrow> string option" where
  "search_root [] = None"
| "search_root (c # cs) =
     (case match_root_here (c # cs) of
        Some m \<Rightarrow> Some m
      | None \<Rightarrow> search_root cs)"

text \<open>\<open>s.replace(old, new, 1)\<close>.\<close>

fun replace_first :: "string \<Rightarrow> string \<Rightarrow> string \<Rightarrow> string" where
  "replace_first old new [] = (if old = [] then new else [])"
| "replace_first old new (c # cs) =
     (if prefix old (c # cs) then new @ drop (length old) (c # cs)
      else c # replace_first old new cs)"

definition xsd_declaration :: string where
  "xsd_declaration =
     '' xmlns:xsd='' @ [CHR 0x22] @ ''http://www.w3.org/2001/XMLSchema'' @ [CHR 0x22]"

definition add_missing_xsd_namespace :: "fs \<Rightarrow> string \<Rightarrow> bool \<times> fs" where
  "add_missing_xsd_namespace files xsl_file =
     (case read_file files xsl_file of
        None \<Rightarrow> (False, files)
      | Some content \<Rightarrow>
          if sublist ''xmlns:xsd='' content then (False, files)
          else
            (case search_root content of
               Some old_tag \<Rightarrow>
                 let new_tag = butlast old_tag @ xsd_declaration @ ''>'';
                     content' = replace_first old_tag new_tag content
                 in (case write_file files xsl_file content' of
                       Some files' \<Rightarrow> (True, files')
                     | None \<Rightarrow> (False, files))
             | None \<Rightarrow> (False, files)))"

text \<open>The number of places where \<open>sub\<close> starts in \<open>s\<close>.\<close>

fun occurrences :: "string \<Rightarrow> string \<Rightarrow> nat" where
  "occurrences sub [] = (if sub = [] then 1 else 0)"
| "occurrences sub (c # cs) = (if prefix sub (c # cs) then 1 else 0) + occurrences sub cs"

text \<open>The clean-up loop: an intermediate file that exists is unlinked, a failure is ignored.\<close>

fun cleanup :: "fs \<Rightarrow> string list \<Rightarrow> fs" where
  "cleanup files [] = files"
| "cleanup files (t # ts) =
     cleanup (if exists files t
              then (case unlink files t of Some files' \<Rightarrow> files' | None \<Rightarrow> files)
              else files) ts"

definition temp_output :: "config \<Rightarrow> path \<Rightarrow> string \<Rightarrow> string" where
  "temp_output cfg sch_file step = str (in_dir (temp_dir cfg) (stem sch_file @ step) ''.xml'')"

definition iso_stylesheet :: "config \<Rightarrow> string \<Rightarrow> string" where
  "iso_stylesheet cfg s = str (in_dir (base_dir cfg) s ''.xsl'')"

definition transform_schematron_file ::
    "'x env \<Rightarrow> fs \<Rightarrow> config \<Rightarrow> path \<Rightarrow> bool \<times> fs" where
  "transform_schematron_file e files cfg sch_file =
     (let temp_output1 = temp_output cfg sch_file ''_step1'';
          temp_output2 = temp_output cfg sch_file ''_step2'';
          temp_output3 = temp_output cfg sch_file ''_step3'';
          (ok1, files1) = run_xslt_transformation e files (str sch_file)
                            (iso_stylesheet cfg ''iso_dsdl_include'') temp_output1
      in if \<not> ok1 then (False, files1)
         else
           let (ok2, files2) = run_xslt_transformation e files1 temp_output1
                                 (iso_stylesheet cfg ''iso_abstract_expand'') temp_output2
           in if \<not> ok2 then (False, files2)
              else
                let (ok3, files3) = run_xslt_transformation e files2 temp_output2
                                      (iso_stylesheet cfg ''iso_svrl_for_xslt2'') temp_output3
                in if \<not> ok3 then (False, files3)
                   else
                     let output_xsl_path = output_file_of cfg sch_file in
                     case (if exists files3 output_xsl_path then unlink files3 output_xsl_path
                           else Some files3) of
                       None \<Rightarrow> (False, files3)
                     | Some files4 \<Rightarrow>
                         (case read_file files4 temp_output3 of
                            None \<Rightarrow> (False, files4)
                          | Some c \<Rightarrow>
                              let files5 = files4(output_xsl_path := File True c);
                                  files6 = snd (add_missing_xsd_namespace files5 output_xsl_path)
                              in case calculate_file_hash e files6 (str sch_file) of
                                   Inl err \<Rightarrow> (False, files6)
                                 | Inr file_hash \<Rightarrow>
                                     let files7 = save_cache_info e files6 cfg sch_file file_hash
                                     in (True, cleanup files7
                                                 [temp_output1, temp_output2, temp_output3])))"

definition check_requirements :: "fs \<Rightarrow> config \<Rightarrow> bool" where
  "check_requirements files cfg =
     (list_all (exists files)
        [iso_stylesheet cfg ''iso_dsdl_include'', iso_stylesheet cfg ''iso_abstract_expand'',
         iso_stylesheet cfg ''iso_svrl_for_xslt2'']
      \<and> exists files (schematron_dir cfg))"

text \<open>
  The loop of \<open>transform_all_schematron_files\<close> over the rule sources, on the file system
  and \<open>success_count\<close>.  \<open>validate_output\<close> only prints and its result is dropped.
\<close>

fun transform_loop ::
    "'x env \<Rightarrow> config \<Rightarrow> bool \<Rightarrow> fs \<times> nat \<Rightarrow> path list \<Rightarrow> py_error + fs \<times> nat" where
  "transform_loop e cfg force_rebuild acc [] = Inr acc"
| "transform_loop e cfg force_rebuild (files, success_count) (sch_file # rest) =
     (case (if force_rebuild then Inr True else needs_transformation e files cfg sch_file) of
        Inl err \<Rightarrow> Inl err
      | Inr False \<Rightarrow> transform_loop e cfg force_rebuild (files, success_count + 1) rest
      | Inr True \<Rightarrow>
          (case transform_schematron_file e files cfg sch_file of
             (True, files') \<Rightarrow> transform_loop e cfg force_rebuild (files', success_count + 1) rest
           | (False, files') \<Rightarrow> transform_loop e cfg force_rebuild (files', success_count) rest))"

definition transform_all_schematron_files ::
    "'x env \<Rightarrow> fs \<Rightarrow> config \<Rightarrow> bool \<Rightarrow> py_error + bool \<times> fs" where
  "transform_all_schematron_files e files cfg force_rebuild =
     (if \<not> check_requirements files cfg then Inr (False, files)
      else
        let sch_files = glob e files (schematron_dir cfg) ''*.sch'' in
        if sch_files = [] then Inr (False, files)
        else
          case transform_loop e cfg force_rebuild (files, 0) sch_files of
            Inl err \<Rightarrow> Inl err
          | Inr (files', success_count) \<Rightarrow> Inr (success_count = length sch_files, files'))"

text \<open>
  How one rule source ends, and the list of these for a batch: the loop replayed with the
  outcome of every source written down.
\<close>

datatype outcome = Skipped | Compiled | Failed

fun outcomes ::
    "'x env \<Rightarrow> config \<Rightarrow> bool \<Rightarrow> fs \<Rightarrow> path list \<Rightarrow> py_error + outcome list" where
  "outcomes e cfg force_rebuild files [] = Inr []"
| "outcomes e cfg force_rebuild files (sch_file # rest) =
     (case (if force_rebuild then Inr True else needs_transformation e files cfg sch_file) of
        Inl err \<Rightarrow> Inl err
      | Inr False \<Rightarrow> map_sum id (\<lambda>os. Skipped # os) (outcomes e cfg force_rebuild files rest)
      | Inr True \<Rightarrow>
          (case transform_schematron_file e files cfg sch_file of
             (ok, files') \<Rightarrow>
               map_sum id (\<lambda>os. (if ok then Compiled else Failed) # os)
                 (outcomes e cfg force_rebuild files' rest)))"

section \<open>Batch validation and the exit status (\<open>fast_validator.py\<close>)\<close>

text \<open>The body of the loop over \<open>xml_files\<close> in \<open>validate_samples\<close>.\<close>

definition validate_document ::
    "'x env \<Rightarrow> fs \<Rightarrow> path list \<Rightarrow> (string + document_result) list \<times> 'x validator \<Rightarrow> path
     \<Rightarrow> (string + document_result) list \<times> 'x validator" where
  "validate_document e files xsl_files acc xml =
     (let (all_results, v) = acc;
          (results, v1) = validate_xml_file e files v xml xsl_files
      in (all_results @ [results], v1))"

text \<open>
  \<open>validate_samples\<close>.  \<open>ensure_xslt_generated\<close> is the call of
  \<open>transform_all_schematron_files\<close>; the validator's \<open>xslt_dir\<close> is the transformer's
  \<open>output_dir\<close> (both are \<open>xslt_schematron\<close> beside the two modules).
  \<open>_print_final_summary\<close> reads \<open>r['file_size']\<close> of every result, which raises
  \<open>KeyError\<close> on the dictionary of a document that was not on disk.  Its timing
  arithmetic on floats is not modelled; it is reached only with a non-empty list of
  results.
\<close>

definition validate_samples ::
    "'x env \<Rightarrow> fs \<Rightarrow> config \<Rightarrow> 'x validator \<Rightarrow> string \<Rightarrow> bool
     \<Rightarrow> py_error + (string + document_result) list \<times> fs \<times> 'x validator" where
  "validate_samples e files cfg v samples_dir force_rebuild =
     (case transform_all_schematron_files e files cfg force_rebuild of
        Inl err \<Rightarrow> Inl err
      | Inr (generated, files1) \<Rightarrow>
          if \<not> generated then Inr ([], files1, v)
          else
            let xsl_files = glob e files1 (output_dir cfg) ''*.xsl'' in
            if xsl_files = [] then Inr ([], files1, v)
            else if \<not> exists files1 samples_dir then Inr ([], files1, v)
            else
              let xml_files = glob e files1 samples_dir ''*.xml'' in
              if xml_files = [] then Inr ([], files1, v)
              else
                let (all_results, v1) =
                      foldl (validate_document e files1 xsl_files) ([], v) xml_files
                in if list_ex isl all_results then Inl KeyError
                   else Inr (all_results, files1, v1))"

text \<open>\<open>r['success'] and r['total_failed_assertions'] == 0\<close>.\<close>

definition result_valid :: "string + document_result \<Rightarrow> bool" where
  "result_valid r =
     (case r of Inl msg \<Rightarrow> False
      | Inr d \<Rightarrow> doc_success d \<and> total_failed_assertions d = 0)"

text \<open>
  The batch branch of \<open>main\<close>: the status passed to \<open>sys.exit\<close>; an exception ends in
  the handler that exits with 1.
\<close>

definition main_batch ::
    "'x env \<Rightarrow> fs \<Rightarrow> config \<Rightarrow> 'x validator \<Rightarrow> string \<Rightarrow> bool \<Rightarrow> nat" where
  "main_batch e files cfg v samples_dir force_rebuild =
     (case validate_samples e files cfg v samples_dir force_rebuild of
        Inl err \<Rightarrow> 1
      | Inr (results, files1, v1) \<Rightarrow>
          let all_valid = list_all result_valid results in
          if all_valid then 0 else 1)"

section \<open>A worked example\<close>

text \<open>
  A small concrete world used to run the definitions: three stylesheets that compile
  (\<open>a\<close> reports three failed assertions, \<open>b\<close> none, \<open>c\<close> gives output that does not
  parse), one that is on disk but does not compile (\<open>e\<close>), and one that is missing (\<open>d\<close>).
\<close>

definition demo_assert :: "string option \<Rightarrow> string \<Rightarrow> string \<Rightarrow> element" where
  "demo_assert rl msg tst =
     Element (svrl ''failed-assert'')
       ((case rl of Some r \<Rightarrow> [(''role'', r)] | None \<Rightarrow> []) @
        [(''test'', tst), (''location'', ''/Invoice'')])
       None [Element (svrl ''text'') [] (Some msg) []]"

definition demo_report :: "element list \<Rightarrow> element" where
  "demo_report es = Element (svrl ''schematron-output'') [] None es"

definition demo_env :: "nat env" where
  "demo_env =
     \<lparr> compile_stylesheet =
         (\<lambda>p. if p = ''xslt/a.xsl'' then Executable 1
              else if p = ''xslt/b.xsl'' then Executable 2
              else if p = ''xslt/c.xsl'' then Executable 3 else Falsy),
       transform_to_string =
         (\<lambda>x src. if x = 1 then Returned ''three'' else if x = 2 then Returned ''none''
                   else Returned ''garbled''),
       transform_to_file = (\<lambda>x files src out. (files, Fault)),
       fromstring =
         (\<lambda>s. if s = ''three''
               then Some (demo_report
                      [Element (svrl ''fired-rule'') [] None [],
                       demo_assert None ''Buyer reference should be present'' ''count(x) = 1'',
                       demo_assert (Some ''WARNING'') ''fatal'' ''y'',
                       demo_assert (Some ''flag'') ''must not be empty'' ''z''])
               else if s = ''none'' then Some (demo_report [])
               else None),
       md5 = (\<lambda>bytes. bytes),
       now = ''0'',
       glob = (\<lambda>files d pat. []),
       st_size = (\<lambda>files p. 0),
       path_stem = (\<lambda>p. p) \<rparr>"

definition demo_files :: fs where
  "demo_files p =
     (if p \<in> set [''in/doc.xml'', ''xslt/a.xsl'', ''xslt/b.xsl'', ''xslt/c.xsl'', ''xslt/e.xsl'']
      then File True [] else Missing)"

definition demo_validator :: "nat validator" where
  "demo_validator =
     \<lparr> xslt_cache = Map.empty, cache_hits = 0, total_validations = 0,
       largest_file_size = 0, compile_calls = [], warnings = [] \<rparr>"

definition demo_xml :: path where
  "demo_xml = in_dir ''in'' ''doc'' ''.xml''"

definition demo_xsl :: "string \<Rightarrow> path" where
  "demo_xsl s = in_dir ''xslt'' s ''.xsl''"

text \<open>
  A disk for the transformer: the three ISO stylesheets, three rule sources (\<open>good\<close>
  compiles, \<open>bad\<close> makes the engine fault, \<open>fresh\<close> has an artifact and a cache record
  with its current digest), and an engine that copies its input to its output.
\<close>

definition demo_cfg :: config where
  "demo_cfg = \<lparr> base_dir = ''iso'', schematron_dir = ''sch'', output_dir = ''xslt'',
                cache_dir = ''cache'', temp_dir = ''tmp'' \<rparr>"

definition demo_sch :: "string \<Rightarrow> path" where
  "demo_sch s = in_dir ''sch'' s ''.sch''"

definition demo_disk :: fs where
  "demo_disk p =
     (if p \<in> set [''iso/iso_dsdl_include.xsl'', ''iso/iso_abstract_expand.xsl'',
                   ''iso/iso_svrl_for_xslt2.xsl'']
      then File True []
      else if p = ''sch'' then Directory
      else if p = ''sch/good.sch'' then File True ''<xsl:stylesheet version=2><a>''
      else if p = ''sch/bad.sch'' then File True ''BAD''
      else if p = ''sch/fresh.sch'' then File True ''rules''
      else if p = ''xslt/fresh.xsl'' then File True ''<stylesheet/>''
      else if p = ''cache/fresh.cache'' then File True (''rules'' @ [CHR 0x0A] @ ''0'' @ [CHR 0x0A])
      else Missing)"

definition demo_engine :: "nat env" where
  "demo_engine =
     demo_env
       \<lparr> compile_stylesheet := (\<lambda>p. Executable 0),
         transform_to_file :=
           (\<lambda>x files src out.
              case read_file files src of
                None \<Rightarrow> (files, Raise)
              | Some c \<Rightarrow> if sublist ''BAD'' c then (files, Fault)
                          else (files(out := File True c), Done)),
         glob := (\<lambda>files d pat.
                    if d = ''sch'' \<and> pat = ''*.sch''
                    then [demo_sch ''good'', demo_sch ''bad'', demo_sch ''fresh'']
                    else []) \<rparr>"

text \<open>A rule source ended well when it was skipped or compiled.\<close>

definition ended_ok :: "outcome \<Rightarrow> bool" where
  "ended_ok oc = (oc = Skipped \<or> oc = Compiled)"

section \<open>Invariant of the validation loop\<close>

text \<open>
  What holds of \<open>results\<close> before and after every round of the loop of
  \<open>validate_xml_file\<close>.
\<close>

definition totals_inv :: "document_result \<Rightarrow> bool" where
  "totals_inv res =
     (total_fired_rules res = sum_list (map get_fired_rules (xslt_results res))
      \<and> total_failed_assertions res = sum_list (map get_failed_assertions (xslt_results res))
      \<and> total_successful_reports res
            = sum_list (map get_successful_reports (xslt_results res))
      \<and> doc_success res = list_all result_success (xslt_results res)
      \<and> total_fired_rules res = sum_list (map fired_rules (successful_runs (xslt_results res)))
      \<and> total_failed_assertions res
            = sum_list (map failed_assertions (successful_runs (xslt_results res)))
      \<and> total_successful_reports res
            = sum_list (map successful_reports (successful_runs (xslt_results res)))
      \<and> list_all (\<lambda>r. result_success r \<or> (get_fired_rules r = 0 \<and> get_failed_assertions r = 0
                                              \<and> get_successful_reports r = 0))
            (xslt_results res))"

section \<open>Properties of the analyzer and of the validation loop\<close>

lemma analyze_assertion_keeps:
  "success (analyze_assertion r a) = success r"
  "fired_rules (analyze_assertion r a) = fired_rules r"
  "failed_assertions (analyze_assertion r a) = failed_assertions r"
  "successful_reports (analyze_assertion r a) = successful_reports r"
  by (simp_all add: analyze_assertion_def Let_def)

lemma foldl_analyze_keeps:
  "success (foldl analyze_assertion r as) = success r
   \<and> fired_rules (foldl analyze_assertion r as) = fired_rules r
   \<and> failed_assertions (foldl analyze_assertion r as) = failed_assertions r
   \<and> successful_reports (foldl analyze_assertion r as) = successful_reports r"
  by (induction as arbitrary: r) (simp_all add: analyze_assertion_keeps)

lemma analyze_keeps_success:
  "success (fst (analyze_svrl_output f out r)) = success r"
  by (cases "f out") (simp_all add: analyze_svrl_output_def Let_def foldl_analyze_keeps)

lemma analyze_parse_failure:
  "f out = None \<Longrightarrow> analyze_svrl_output f out r = (r, [parse_warning])"
  by (simp add: analyze_svrl_output_def)

lemma validate_against_failed_zero:
  assumes "\<not> success (fst (validate_against_xslt e files v xml xsl))"
  shows "fired_rules (fst (validate_against_xslt e files v xml xsl)) = 0
       \<and> failed_assertions (fst (validate_against_xslt e files v xml xsl)) = 0
       \<and> successful_reports (fst (validate_against_xslt e files v xml xsl)) = 0"
proof (cases "get_compiled_xslt e files v xsl")
  case (Pair ox v1)
  show ?thesis
  proof (cases ox)
    case None
    with Pair show ?thesis
      by (simp add: validate_against_xslt_def initial_run_def)
  next
    case (Some x)
    show ?thesis
    proof (cases "transform_to_string e x (str xml)")
      case (Returned out)
      have "success (fst (analyze_svrl_output (fromstring e) out
              ((initial_run xsl)\<lparr>svrl_output := out, success := True\<rparr>)))"
        by (simp add: analyze_keeps_success)
      with assms Pair Some Returned show ?thesis
        by (simp add: validate_against_xslt_def Let_def split: prod.splits)
    next
      case (Faulted m)
      with Pair Some show ?thesis
        by (simp add: validate_against_xslt_def initial_run_def)
    next
      case (Raised m)
      with Pair Some show ?thesis
        by (simp add: validate_against_xslt_def initial_run_def)
    qed
  qed
qed

lemma successful_runs_snoc:
  "successful_runs (rs @ [r]) = successful_runs rs @ successful_runs [r]"
  by (induction rs rule: successful_runs.induct) simp_all

lemma validate_step_inv:
  assumes "totals_inv (fst acc)"
  shows "totals_inv (fst (validate_step e files xml acc xsl))
       \<and> length (xslt_results (fst (validate_step e files xml acc xsl)))
           = Suc (length (xslt_results (fst acc)))"
proof (cases acc)
  case (Pair res v)
  show ?thesis
  proof (cases "exists files (str xsl)")
    case False
    with Pair assms show ?thesis
      by (simp add: validate_step_def totals_inv_def successful_runs_snoc)
  next
    case True
    obtain r v1 where rv: "validate_against_xslt e files v xml xsl = (r, v1)"
      by (cases "validate_against_xslt e files v xml xsl")
    have z: "\<not> success r \<Longrightarrow> fired_rules r = 0 \<and> failed_assertions r = 0 \<and> successful_reports r = 0"
      using validate_against_failed_zero[of e files v xml xsl] rv by simp
    show ?thesis
    proof (cases "success r")
      case True
      with Pair assms rv \<open>exists files (str xsl)\<close> show ?thesis
        by (simp add: validate_step_def totals_inv_def successful_runs_snoc Let_def)
    next
      case False
      with z Pair assms rv \<open>exists files (str xsl)\<close> show ?thesis
        by (simp add: validate_step_def totals_inv_def successful_runs_snoc Let_def)
    qed
  qed
qed

lemma validate_fold_inv:
  "totals_inv (fst acc) \<Longrightarrow>
   totals_inv (fst (foldl (validate_step e files xml) acc xsls))
   \<and> length (xslt_results (fst (foldl (validate_step e files xml) acc xsls)))
       = length (xslt_results (fst acc)) + length xsls"
proof (induction xsls arbitrary: acc)
  case Nil
  then show ?case by simp
next
  case (Cons x xs)
  from validate_step_inv[OF Cons.prems, of e files xml x]
  have a: "totals_inv (fst (validate_step e files xml acc x))"
    and b: "length (xslt_results (fst (validate_step e files xml acc x))) = Suc (length (xslt_results (fst acc)))"
    by simp_all
  from Cons.IH[OF a] b show ?case by simp
qed

lemma validate_xml_file_inv:
  assumes "fst (validate_xml_file e files v xml xsls) = Inr res"
  shows "totals_inv res \<and> length (xslt_results res) = length xsls"
proof -
  from assms have ex: "exists files (str xml)"
    by (auto simp: validate_xml_file_def split: if_splits)
  define res0 where "res0 = \<lparr> xml_file = str xml, file_size = st_size e files (str xml), xslt_results = [],
                         doc_success = True, total_fired_rules = 0,
                         total_failed_assertions = 0, total_successful_reports = 0 \<rparr>"
  define v0 where "v0 = v\<lparr> largest_file_size := max (largest_file_size v) (st_size e files (str xml)) \<rparr>"
  have i0: "totals_inv (fst (res0, v0))" by (simp add: totals_inv_def res0_def)
  have "res = fst (foldl (validate_step e files xml) (res0, v0) xsls)"
    using assms ex by (simp add: validate_xml_file_def Let_def res0_def v0_def split: prod.splits)
  with validate_fold_inv[OF i0, of e files xml xsls] show ?thesis by (simp add: res0_def)
qed


lemma json_fold_fields:
  "total_xslt_files_processed (foldl (json_step e) j rs) = total_xslt_files_processed j
   \<and> validation_success (foldl (json_step e) j rs) = validation_success j
   \<and> total_rules_fired (foldl (json_step e) j rs) = total_rules_fired j
   \<and> json_total_failed_assertions (foldl (json_step e) j rs) = json_total_failed_assertions j
   \<and> json_total_successful_reports (foldl (json_step e) j rs) = json_total_successful_reports j
   \<and> is_valid (foldl (json_step e) j rs) = is_valid j"
proof (induction rs arbitrary: j)
  case Nil
  show ?case by simp
next
  case (Cons r rs)
  show ?case by (cases r) (simp_all add: Cons.IH)
qed

lemma json_fold_results:
  "schematron_results (foldl (json_step e) j rs)
     = schematron_results j @ map (schematron_of e) (successful_runs rs)
   \<and> overall_severity_breakdown (foldl (json_step e) j rs)
     = foldl add_breakdown (overall_severity_breakdown j)
         (map (\<lambda>r. sr_severity_breakdown (schematron_of e r)) (successful_runs rs))"
proof (induction rs arbitrary: j)
  case Nil
  show ?case by simp
next
  case (Cons r rs)
  show ?case by (cases r) (simp_all add: Cons.IH schematron_of_def)
qed


lemma demo_doc_exists: "exists demo_files (str demo_xml)"
  by (simp add: demo_files_def demo_xml_def str_def name_def in_dir_def exists_def)

lemma validate_xml_file_Inr:
  "exists files (str xml) \<Longrightarrow>
   fst (validate_xml_file e files v xml xsls) = Inr (projr (fst (validate_xml_file e files v xml xsls)))"
  by (simp add: validate_xml_file_def Let_def split: prod.splits)


lemmas severity_defs = determine_severity_def Let_def severity_names_def lower_def lower_char_def
  any_word_in_def fatal_words_def error_words_def warning_words_def info_words_def
  sublist_Cons_right

text \<open>
  Claim C2.  \<open>_determine_severity\<close> is a total function whose result is one of the four
  severity names.  A role that equals one of them after lower-casing is returned as it
  is (so the role \<open>warning\<close> gives \<open>warning\<close> whatever the message says); otherwise the
  first keyword set with a word in the lower-cased message decides, in the order fatal,
  error, warning, info; otherwise a test with \<open>not(\<close> or \<open>false()\<close> gives \<open>error\<close>, and so
  does everything else.
\<close>

theorem determine_severity_total:
  "determine_severity rl msg tst \<in> set [''fatal'', ''error'', ''warning'', ''info'']
   \<and> (lower rl \<in> set severity_names \<longrightarrow> determine_severity rl msg tst = lower rl)
   \<and> determine_severity ''warning'' msg tst = ''warning''
   \<and> (lower rl \<notin> set severity_names \<and> any_word_in fatal_words (lower msg)
        \<longrightarrow> determine_severity rl msg tst = ''fatal'')
   \<and> (lower rl \<notin> set severity_names \<and> \<not> any_word_in fatal_words (lower msg)
        \<and> any_word_in error_words (lower msg)
        \<longrightarrow> determine_severity rl msg tst = ''error'')
   \<and> (lower rl \<notin> set severity_names \<and> \<not> any_word_in fatal_words (lower msg)
        \<and> \<not> any_word_in error_words (lower msg) \<and> any_word_in warning_words (lower msg)
        \<longrightarrow> determine_severity rl msg tst = ''warning'')
   \<and> (lower rl \<notin> set severity_names \<and> \<not> any_word_in fatal_words (lower msg)
        \<and> \<not> any_word_in error_words (lower msg) \<and> \<not> any_word_in warning_words (lower msg)
        \<and> any_word_in info_words (lower msg)
        \<longrightarrow> determine_severity rl msg tst = ''info'')
   \<and> (lower rl \<notin> set severity_names \<and> \<not> any_word_in fatal_words (lower msg)
        \<and> \<not> any_word_in error_words (lower msg) \<and> \<not> any_word_in warning_words (lower msg)
        \<and> \<not> any_word_in info_words (lower msg)
        \<and> (sublist ''not('' (lower tst) \<or> sublist ''false()'' (lower tst))
        \<longrightarrow> determine_severity rl msg tst = ''error'')
   \<and> (lower rl \<notin> set severity_names \<and> \<not> any_word_in fatal_words (lower msg)
        \<and> \<not> any_word_in error_words (lower msg) \<and> \<not> any_word_in warning_words (lower msg)
        \<and> \<not> any_word_in info_words (lower msg)
        \<and> \<not> (sublist ''not('' (lower tst) \<or> sublist ''false()'' (lower tst))
        \<longrightarrow> determine_severity rl msg tst = ''error'')"
  by (simp add: determine_severity_def Let_def severity_names_def lower_def lower_char_def)

text \<open>The chain run on three inputs: an upper-case role, a warning word, a negated test.\<close>

theorem determine_severity_total_witness:
  "lower ''WARNING'' \<in> set severity_names
   \<and> determine_severity ''WARNING'' ''fatal error'' ''x'' = ''warning''
   \<and> lower ''flag'' \<notin> set severity_names
   \<and> any_word_in warning_words (lower ''You should do it'')
   \<and> determine_severity ''flag'' ''You should do it'' ''x'' = ''warning''
   \<and> sublist ''not('' (lower ''not(empty(ID))'')
   \<and> determine_severity ''flag'' ''plain'' ''not(empty(ID))'' = ''error''"
proof -
  have r1: "lower ''WARNING'' \<in> set severity_names" by code_simp
  have r2: "lower ''WARNING'' = ''warning''" by code_simp
  from determine_severity_total [of "''WARNING''" "''fatal error''" "''x''"] r1
  have a: "determine_severity ''WARNING'' ''fatal error'' ''x'' = lower ''WARNING''"
    by blast
  have w1: "lower ''flag'' \<notin> set severity_names" by code_simp
  have w2: "\<not> any_word_in fatal_words (lower ''You should do it'')" by code_simp
  have w3: "\<not> any_word_in error_words (lower ''You should do it'')" by code_simp
  have w4: "any_word_in warning_words (lower ''You should do it'')" by code_simp
  from determine_severity_total [of "''flag''" "''You should do it''" "''x''"] w1 w2 w3 w4
  have b: "determine_severity ''flag'' ''You should do it'' ''x'' = ''warning''"
    by blast
  have t2: "\<not> any_word_in fatal_words (lower ''plain'')" by code_simp
  have t3: "\<not> any_word_in error_words (lower ''plain'')" by code_simp
  have t4: "\<not> any_word_in warning_words (lower ''plain'')" by code_simp
  have t5: "\<not> any_word_in info_words (lower ''plain'')" by code_simp
  have t6: "sublist ''not('' (lower ''not(empty(ID))'')" by code_simp
  from determine_severity_total [of "''flag''" "''plain''" "''not(empty(ID))''"] w1 t2 t3 t4 t5 t6
  have c: "determine_severity ''flag'' ''plain'' ''not(empty(ID))'' = ''error''"
    by blast
  from r1 r2 a w1 w4 b t6 c show ?thesis by simp
qed

lemma determine_severity_error_role: "determine_severity ''error'' m t = ''error''"
  by (simp add: determine_severity_def Let_def severity_names_def lower_def lower_char_def)

lemma analyze_assertion_no_role:
  assumes "map_of (attrib a) ''role'' = None"
  shows "severities (analyze_assertion r a) = severities r @ [''error'']
       \<and> roles (analyze_assertion r a) = roles r @ [''error'']"
  using assms
  by (simp add: analyze_assertion_def Let_def dict_get_def severities_def roles_def
      determine_severity_error_role split: option.splits)

lemma foldl_analyze_no_role:
  "list_all (\<lambda>a. map_of (attrib a) ''role'' = None) as \<Longrightarrow>
   severities (foldl analyze_assertion r as) = severities r @ replicate (length as) ''error''"
proof (induction as arbitrary: r)
  case Nil
  show ?case by simp
next
  case (Cons a as)
  from Cons.prems have a: "map_of (attrib a) ''role'' = None"
    and rest: "list_all (\<lambda>a. map_of (attrib a) ''role'' = None) as" by simp_all
  from Cons.IH[OF rest, of "analyze_assertion r a"] analyze_assertion_no_role[OF a, of r]
  show ?case by (simp add: replicate_app_Cons_same)
qed

text \<open>
  Claim C1, as the code has it.  The analyzer reads the role with
  \<open>assertion.get('role', 'error')\<close>: a failed assertion without a role attribute is given
  the role \<open>error\<close>, which is one of the four names, so it is classified \<open>error\<close> whatever
  its message and test say, and \<open>error\<close> is the role recorded with it.  A result whose
  failed assertions all lack a role holds only \<open>error\<close> severities.  The keyword step is
  reached by a finding whose role is present and matches none of the four names: with a
  warning word and no fatal or error word in its message it is classified \<open>warning\<close>.
\<close>

theorem absent_role_defaults_to_error:
  "(map_of (attrib a) ''role'' = None \<longrightarrow>
      severities (analyze_assertion r a) = severities r @ [''error'']
      \<and> roles (analyze_assertion r a) = roles r @ [''error''])
   \<and> (fromstring e out = Some root \<and> error_details r = None
        \<and> list_all (\<lambda>a. map_of (attrib a) ''role'' = None) (findall root ''failed-assert'')
        \<longrightarrow> severities (fst (analyze_svrl_output (fromstring e) out r))
              = replicate (length (findall root ''failed-assert'')) ''error'')
   \<and> (map_of (attrib a) ''role'' = Some rl \<and> lower rl \<notin> set severity_names
        \<and> find_child a ''text'' = Some t \<and> elem_text t = Some msg \<and> msg \<noteq> []
        \<and> \<not> any_word_in fatal_words (lower msg) \<and> \<not> any_word_in error_words (lower msg)
        \<and> any_word_in warning_words (lower msg)
        \<longrightarrow> severities (analyze_assertion r a) = severities r @ [''warning''])"
proof -
  have one: "severities (analyze_assertion r a) = severities r @ [''error'']
      \<and> roles (analyze_assertion r a) = roles r @ [''error'']"
    if "map_of (attrib a) ''role'' = None"
    using that by (rule analyze_assertion_no_role)
  have all: "severities (fst (analyze_svrl_output (fromstring e) out r))
              = replicate (length (findall root ''failed-assert'')) ''error''"
    if p: "fromstring e out = Some root" and n: "error_details r = None"
      and l: "list_all (\<lambda>a. map_of (attrib a) ''role'' = None) (findall root ''failed-assert'')"
  proof (cases "findall root ''failed-assert'' = []")
    case True
    with p n show ?thesis by (simp add: analyze_svrl_output_def Let_def severities_def)
  next
    case False
    with p foldl_analyze_no_role[OF l] show ?thesis
      by (simp add: analyze_svrl_output_def Let_def severities_def)
  qed
  have other: "severities (analyze_assertion r a) = severities r @ [''warning'']"
    if "map_of (attrib a) ''role'' = Some rl" "lower rl \<notin> set severity_names"
       "find_child a ''text'' = Some t" "elem_text t = Some msg" "msg \<noteq> []"
       "\<not> any_word_in fatal_words (lower msg)" "\<not> any_word_in error_words (lower msg)"
       "any_word_in warning_words (lower msg)"
    using that
    by (simp add: analyze_assertion_def Let_def dict_get_def severities_def or_default_def
        determine_severity_def split: option.splits)
  from one all other show ?thesis by blast
qed

text \<open>The same message without a role, and under a role that matches no name.\<close>

theorem absent_role_defaults_to_error_witness:
  "map_of (attrib (demo_assert None ''Buyer reference should be present'' ''count(x) = 1''))
      ''role'' = None
   \<and> severities (analyze_assertion (initial_run (demo_xsl ''a''))
        (demo_assert None ''Buyer reference should be present'' ''count(x) = 1'')) = [''error'']
   \<and> roles (analyze_assertion (initial_run (demo_xsl ''a''))
        (demo_assert None ''Buyer reference should be present'' ''count(x) = 1'')) = [''error'']
   \<and> map_of (attrib (demo_assert (Some ''flag'') ''Buyer reference should be present''
        ''count(x) = 1'')) ''role'' = Some ''flag''
   \<and> severities (analyze_assertion (initial_run (demo_xsl ''a''))
        (demo_assert (Some ''flag'') ''Buyer reference should be present'' ''count(x) = 1''))
       = [''warning'']"
proof -
  let ?m = "''Buyer reference should be present''"
  let ?a = "demo_assert None ?m ''count(x) = 1''"
  let ?b = "demo_assert (Some ''flag'') ?m ''count(x) = 1''"
  let ?r = "initial_run (demo_xsl ''a'')"
  have s0: "severities ?r = []" "roles ?r = []" by code_simp+
  have h1: "map_of (attrib ?a) ''role'' = None" by code_simp
  from absent_role_defaults_to_error[of ?a ?r] h1
  have a: "severities (analyze_assertion ?r ?a) = severities ?r @ [''error'']
           \<and> roles (analyze_assertion ?r ?a) = roles ?r @ [''error'']"
    by blast
  have g1: "map_of (attrib ?b) ''role'' = Some ''flag''" by code_simp
  have g2: "lower ''flag'' \<notin> set severity_names" by code_simp
  have g3: "find_child ?b ''text'' = Some (Element (svrl ''text'') [] (Some ?m) [])" by code_simp
  have g4: "elem_text (Element (svrl ''text'') [] (Some ?m) []) = Some ?m" by simp
  have g5: "?m \<noteq> []" by simp
  have g6: "\<not> any_word_in fatal_words (lower ?m)" by code_simp
  have g7: "\<not> any_word_in error_words (lower ?m)" by code_simp
  have g8: "any_word_in warning_words (lower ?m)" by code_simp
  from absent_role_defaults_to_error[of ?b ?r _ _ _ "''flag''"
      "Element (svrl ''text'') [] (Some ?m) []" ?m] g1 g2 g3 g4 g5 g6 g7 g8
  have b: "severities (analyze_assertion ?r ?b) = severities ?r @ [''warning'']"
    by blast
  from h1 a g1 b s0 show ?thesis by simp
qed

text \<open>
  The claim as stated fails: a failed assertion without a role whose message holds the
  warning word \<open>should\<close>, and no fatal or error word, is classified \<open>error\<close>, alone and as
  the first finding of the example report.
\<close>

theorem absent_role_counterexample:
  "map_of (attrib (demo_assert None ''Buyer reference should be present'' ''count(x) = 1''))
      ''role'' = None
   \<and> any_word_in warning_words (lower ''Buyer reference should be present'')
   \<and> \<not> any_word_in fatal_words (lower ''Buyer reference should be present'')
   \<and> \<not> any_word_in error_words (lower ''Buyer reference should be present'')
   \<and> severities (analyze_assertion (initial_run (demo_xsl ''a''))
        (demo_assert None ''Buyer reference should be present'' ''count(x) = 1'')) = [''error'']
   \<and> severities (fst (analyze_svrl_output (fromstring demo_env) ''three''
        (initial_run (demo_xsl ''a'')))) = [''error'', ''warning'', ''fatal'']"
  by code_simp

text \<open>
  Claim C3.  For a document that is on disk, \<open>validate_xml_file\<close> gives one result per
  rule set, the total of failed assertions is the sum of the per-rule-set counts
  (\<open>result.get('failed_assertions', 0)\<close>), the report carries that total, and the report's
  \<open>is_valid\<close> holds exactly when every per-rule-set run succeeded and the total is zero.
\<close>

theorem document_verdict_and_totals:
  assumes "fst (validate_xml_file e files v xml xsls) = Inr res"
  shows "length (xslt_results res) = length xsls
       \<and> total_failed_assertions res = sum_list (map get_failed_assertions (xslt_results res))
       \<and> json_total_failed_assertions (create_json_result e res) = total_failed_assertions res
       \<and> is_valid (create_json_result e res)
           = (list_all result_success (xslt_results res)
              \<and> sum_list (map get_failed_assertions (xslt_results res)) = 0)"
proof -
  from validate_xml_file_inv[OF assms]
  have inv: "totals_inv res" and len: "length (xslt_results res) = length xsls"
    by simp_all
  have tot: "total_failed_assertions res = sum_list (map get_failed_assertions (xslt_results res))"
    and suc: "doc_success res = list_all result_success (xslt_results res)"
    using inv by (simp_all add: totals_inv_def)
  have j1: "json_total_failed_assertions (create_json_result e res) = total_failed_assertions res"
    by (simp add: create_json_result_def json_fold_fields)
  have j2: "is_valid (create_json_result e res)
              = (doc_success res \<and> total_failed_assertions res = 0)"
    by (simp add: create_json_result_def json_fold_fields)
  from len tot j1 j2 suc show ?thesis by simp
qed

text \<open>
  Two rule sets reporting 3 and 0 failed assertions: total 3, not valid.  One rule set
  reporting 0: valid.
\<close>

theorem document_verdict_and_totals_witness:
  "map get_failed_assertions (xslt_results (projr (fst (validate_xml_file demo_env demo_files
       demo_validator demo_xml [demo_xsl ''a'', demo_xsl ''b''])))) = [3, 0]
   \<and> total_failed_assertions (projr (fst (validate_xml_file demo_env demo_files
       demo_validator demo_xml [demo_xsl ''a'', demo_xsl ''b'']))) = 3
   \<and> is_valid (create_json_result demo_env (projr (fst (validate_xml_file demo_env demo_files
       demo_validator demo_xml [demo_xsl ''a'', demo_xsl ''b''])))) = False
   \<and> is_valid (create_json_result demo_env (projr (fst (validate_xml_file demo_env demo_files
       demo_validator demo_xml [demo_xsl ''b''])))) = True"
proof -
  define r1 where "r1 = projr (fst (validate_xml_file demo_env demo_files
       demo_validator demo_xml [demo_xsl ''a'', demo_xsl ''b'']))"
  define r2 where "r2 = projr (fst (validate_xml_file demo_env demo_files
       demo_validator demo_xml [demo_xsl ''b'']))"
  have h1: "fst (validate_xml_file demo_env demo_files demo_validator demo_xml
              [demo_xsl ''a'', demo_xsl ''b'']) = Inr r1"
    unfolding r1_def by (rule validate_xml_file_Inr[OF demo_doc_exists])
  have h2: "fst (validate_xml_file demo_env demo_files demo_validator demo_xml
              [demo_xsl ''b'']) = Inr r2"
    unfolding r2_def by (rule validate_xml_file_Inr[OF demo_doc_exists])
  have c1: "map get_failed_assertions (xslt_results r1) = [3, 0]"
    unfolding r1_def by code_simp
  have c2: "list_all result_success (xslt_results r2)"
    unfolding r2_def by code_simp
  have c3: "map get_failed_assertions (xslt_results r2) = [0]"
    unfolding r2_def by code_simp
  from document_verdict_and_totals[OF h1] c1
  have a: "total_failed_assertions r1 = 3 \<and> is_valid (create_json_result demo_env r1) = False"
    by simp
  from document_verdict_and_totals[OF h2] c2 c3
  have b: "is_valid (create_json_result demo_env r2) = True"
    by simp
  from a b c1 show ?thesis unfolding r1_def r2_def by simp
qed

text \<open>
  Claim C9.  A run that did not succeed has zero counts and adds nothing to the totals:
  each total is the sum over the successful runs.  The entries of \<open>schematron_results\<close>
  and the overall severity histogram of the report are built from the successful runs
  alone, in order.
\<close>

theorem failed_runs_omitted:
  assumes "fst (validate_xml_file e files v xml xsls) = Inr res"
  shows "list_all (\<lambda>r. result_success r \<or> (get_fired_rules r = 0 \<and> get_failed_assertions r = 0
                                            \<and> get_successful_reports r = 0)) (xslt_results res)
       \<and> total_fired_rules res = sum_list (map fired_rules (successful_runs (xslt_results res)))
       \<and> total_failed_assertions res
           = sum_list (map failed_assertions (successful_runs (xslt_results res)))
       \<and> total_successful_reports res
           = sum_list (map successful_reports (successful_runs (xslt_results res)))
       \<and> schematron_results (create_json_result e res)
           = map (schematron_of e) (successful_runs (xslt_results res))
       \<and> overall_severity_breakdown (create_json_result e res)
           = foldl add_breakdown initial_breakdown
               (map (\<lambda>r. sr_severity_breakdown (schematron_of e r))
                  (successful_runs (xslt_results res)))"
proof -
  from validate_xml_file_inv[OF assms] have inv: "totals_inv res" by simp
  have a: "schematron_results (create_json_result e res)
           = map (schematron_of e) (successful_runs (xslt_results res))"
    by (simp add: create_json_result_def json_fold_results)
  have b: "overall_severity_breakdown (create_json_result e res)
           = foldl add_breakdown initial_breakdown
               (map (\<lambda>r. sr_severity_breakdown (schematron_of e r))
                  (successful_runs (xslt_results res)))"
    by (simp add: create_json_result_def json_fold_results)
  from inv a b show ?thesis by (simp add: totals_inv_def)
qed

text \<open>
  A stylesheet that does not compile, one that reports, and one that is missing: only the
  second appears in the report.
\<close>

theorem failed_runs_omitted_witness:
  "map result_success (xslt_results (projr (fst (validate_xml_file demo_env demo_files
       demo_validator demo_xml [demo_xsl ''e'', demo_xsl ''a'', demo_xsl ''d''])))) = [False, True, False]
   \<and> total_fired_rules (projr (fst (validate_xml_file demo_env demo_files
       demo_validator demo_xml [demo_xsl ''e'', demo_xsl ''a'', demo_xsl ''d'']))) = 1
   \<and> map schematron_name (schematron_results (create_json_result demo_env
       (projr (fst (validate_xml_file demo_env demo_files
       demo_validator demo_xml [demo_xsl ''e'', demo_xsl ''a'', demo_xsl ''d''])))))
       = [''xslt/a.xsl'']"
proof -
  define r where "r = projr (fst (validate_xml_file demo_env demo_files
       demo_validator demo_xml [demo_xsl ''e'', demo_xsl ''a'', demo_xsl ''d'']))"
  have h: "fst (validate_xml_file demo_env demo_files demo_validator demo_xml
              [demo_xsl ''e'', demo_xsl ''a'', demo_xsl ''d'']) = Inr r"
    unfolding r_def by (rule validate_xml_file_Inr[OF demo_doc_exists])
  have c1: "map result_success (xslt_results r) = [False, True, False]"
    unfolding r_def by code_simp
  have c2: "map fired_rules (successful_runs (xslt_results r)) = [1]"
    unfolding r_def by code_simp
  have c3: "map schematron_name (map (schematron_of demo_env) (successful_runs (xslt_results r)))
              = [''xslt/a.xsl'']"
    unfolding r_def by code_simp
  from failed_runs_omitted[OF h] c2
  have a: "total_fired_rules r = 1" by simp
  from failed_runs_omitted[OF h] c3
  have b: "map schematron_name (schematron_results (create_json_result demo_env r))
             = [''xslt/a.xsl'']" by simp
  from a b c1 show ?thesis unfolding r_def by simp
qed




text \<open>
  Claim C6.  A hit returns the stored executable and only adds one to \<open>cache_hits\<close>.  A
  miss on a file that compiles returns the new executable, with one call of the engine and
  the executable stored under the path.  A miss that fails (file missing, falsy
  executable, exception) returns \<open>None\<close> and leaves the cache as it was, so the next call
  for the path takes the miss branch again.  The engine is called once on a miss for a file
  that is on disk, and not at all otherwise.
\<close>

theorem xslt_cache_behaviour:
  "(xslt_cache v (str p) = Some x \<longrightarrow>
      get_compiled_xslt e files v p = (Some x, v\<lparr> cache_hits := cache_hits v + 1 \<rparr>))
   \<and> (xslt_cache v (str p) = None \<and> exists files (str p)
        \<and> compile_stylesheet e (str p) = Executable x \<longrightarrow>
      get_compiled_xslt e files v p
        = (Some x, v\<lparr> compile_calls := compile_calls v @ [str p],
                       xslt_cache := (xslt_cache v)(str p \<mapsto> x) \<rparr>))
   \<and> (xslt_cache v (str p) = None
        \<and> (\<not> exists files (str p) \<or> compile_stylesheet e (str p) = Falsy
            \<or> compile_stylesheet e (str p) = Compile_raises) \<longrightarrow>
      fst (get_compiled_xslt e files v p) = None
      \<and> xslt_cache (snd (get_compiled_xslt e files v p)) = xslt_cache v
      \<and> cache_hits (snd (get_compiled_xslt e files v p)) = cache_hits v
      \<and> fst (get_compiled_xslt e' files' (snd (get_compiled_xslt e files v p)) p)
          = (if exists files' (str p)
             then (case compile_stylesheet e' (str p) of Executable y \<Rightarrow> Some y | _ \<Rightarrow> None)
             else None))
   \<and> length (compile_calls (snd (get_compiled_xslt e files v p)))
       = length (compile_calls v)
         + (if xslt_cache v (str p) = None \<and> exists files (str p) then 1 else 0)"
  by (auto simp: get_compiled_xslt_def Let_def split: option.splits compiled.splits)

text \<open>A hit, a miss that compiles, a miss that gives a falsy executable, a missing file.\<close>

theorem xslt_cache_behaviour_witness:
  "fst (get_compiled_xslt demo_env demo_files
          (demo_validator\<lparr> xslt_cache := [''xslt/a.xsl'' \<mapsto> 7] \<rparr>) (demo_xsl ''a'')) = Some 7
   \<and> cache_hits (snd (get_compiled_xslt demo_env demo_files
          (demo_validator\<lparr> xslt_cache := [''xslt/a.xsl'' \<mapsto> 7] \<rparr>) (demo_xsl ''a''))) = 1
   \<and> compile_calls (snd (get_compiled_xslt demo_env demo_files
          (demo_validator\<lparr> xslt_cache := [''xslt/a.xsl'' \<mapsto> 7] \<rparr>) (demo_xsl ''a''))) = []
   \<and> fst (get_compiled_xslt demo_env demo_files demo_validator (demo_xsl ''a'')) = Some 1
   \<and> compile_calls (snd (get_compiled_xslt demo_env demo_files demo_validator (demo_xsl ''a'')))
       = [''xslt/a.xsl'']
   \<and> xslt_cache (snd (get_compiled_xslt demo_env demo_files demo_validator (demo_xsl ''a'')))
         ''xslt/a.xsl'' = Some 1
   \<and> fst (get_compiled_xslt demo_env demo_files demo_validator (demo_xsl ''e'')) = None
   \<and> xslt_cache (snd (get_compiled_xslt demo_env demo_files demo_validator (demo_xsl ''e'')))
         ''xslt/e.xsl'' = None
   \<and> fst (get_compiled_xslt demo_env demo_files demo_validator (demo_xsl ''d'')) = None
   \<and> compile_calls (snd (get_compiled_xslt demo_env demo_files demo_validator (demo_xsl ''d'')))
       = []"
proof -
  have s: "str (demo_xsl ''a'') = ''xslt/a.xsl''" "str (demo_xsl ''e'') = ''xslt/e.xsl''"
    "str (demo_xsl ''d'') = ''xslt/d.xsl''"
    by (simp_all add: demo_xsl_def in_dir_def str_def name_def)
  have x: "exists demo_files ''xslt/a.xsl''" "exists demo_files ''xslt/e.xsl''"
    "\<not> exists demo_files ''xslt/d.xsl''"
    by (simp_all add: demo_files_def exists_def)
  have k: "compile_stylesheet demo_env ''xslt/a.xsl'' = Executable 1"
    "compile_stylesheet demo_env ''xslt/e.xsl'' = Falsy"
    by (simp_all add: demo_env_def)
  note hit = xslt_cache_behaviour [of "demo_validator\<lparr> xslt_cache := [''xslt/a.xsl'' \<mapsto> 7] \<rparr>"
      "demo_xsl ''a''" 7 demo_env demo_files demo_env demo_files]
  note miss = xslt_cache_behaviour [of demo_validator "demo_xsl ''a''" 1 demo_env demo_files
      demo_env demo_files]
  note falsy = xslt_cache_behaviour [of demo_validator "demo_xsl ''e''" 1 demo_env demo_files
      demo_env demo_files]
  note gone = xslt_cache_behaviour [of demo_validator "demo_xsl ''d''" 1 demo_env demo_files
      demo_env demo_files]
  from hit s have a: "get_compiled_xslt demo_env demo_files
          (demo_validator\<lparr> xslt_cache := [''xslt/a.xsl'' \<mapsto> 7] \<rparr>) (demo_xsl ''a'')
        = (Some 7, demo_validator\<lparr> xslt_cache := [''xslt/a.xsl'' \<mapsto> 7], cache_hits := 1 \<rparr>)"
    by (simp add: demo_validator_def)
  from miss s x k have b: "get_compiled_xslt demo_env demo_files demo_validator (demo_xsl ''a'')
        = (Some 1, demo_validator\<lparr> compile_calls := [''xslt/a.xsl''],
                                    xslt_cache := [''xslt/a.xsl'' \<mapsto> 1] \<rparr>)"
    by (simp add: demo_validator_def)
  from falsy s x k have c: "fst (get_compiled_xslt demo_env demo_files demo_validator (demo_xsl ''e'')) = None
     \<and> xslt_cache (snd (get_compiled_xslt demo_env demo_files demo_validator (demo_xsl ''e'')))
         = Map.empty"
    by (simp add: demo_validator_def)
  from gone s x have d: "fst (get_compiled_xslt demo_env demo_files demo_validator (demo_xsl ''d'')) = None
     \<and> length (compile_calls (snd (get_compiled_xslt demo_env demo_files demo_validator
           (demo_xsl ''d'')))) = 0"
    by (simp add: demo_validator_def)
  from a b c d show ?thesis by (simp add: demo_validator_def)
qed

section \<open>Properties of the build cache and of the batch\<close>

lemma get_cache_info_cases:
  "get_cache_info files cfg sch =
     (case read_file files (cache_file_of cfg sch) of
        None \<Rightarrow> []
      | Some content \<Rightarrow>
          if 2 \<le> length (split_lines (strip content))
          then [(''hash'', split_lines (strip content) ! 0),
                (''timestamp'', split_lines (strip content) ! 1)]
          else [])"
  by (auto simp: get_cache_info_def Let_def read_file_def exists_def
      split: option.splits node.splits bool.splits)

text \<open>
  Claim C4.  For a rule source whose bytes can be read, \<open>needs_transformation\<close> returns
  true exactly when the compiled artifact is not on disk, or \<open>get_cache_info\<close> gives no
  record, or the stored digest differs from the digest of the current bytes; with the
  artifact on disk and a stored digest equal to the current one it returns false.  A cache
  file that cannot be read, or that holds fewer than two lines, gives no record.
\<close>

theorem needs_transformation_iff:
  assumes "read_file files (str sch) = Some bytes"
  shows "needs_transformation e files cfg sch
           = Inr (\<not> exists files (output_file_of cfg sch)
                  \<or> get_cache_info files cfg sch = []
                  \<or> map_of (get_cache_info files cfg sch) ''hash'' \<noteq> Some (md5 e bytes))
       \<and> (exists files (output_file_of cfg sch)
            \<and> map_of (get_cache_info files cfg sch) ''hash'' = Some (md5 e bytes)
            \<longrightarrow> needs_transformation e files cfg sch = Inr False)
       \<and> (read_file files (cache_file_of cfg sch) = None
            \<longrightarrow> get_cache_info files cfg sch = [])
       \<and> (read_file files (cache_file_of cfg sch) = Some content
            \<longrightarrow> get_cache_info files cfg sch
                  = (if 2 \<le> length (split_lines (strip content))
                     then [(''hash'', split_lines (strip content) ! 0),
                           (''timestamp'', split_lines (strip content) ! 1)]
                     else []))"
proof -
  have h: "calculate_file_hash e files (str sch) = Inr (md5 e bytes)"
    using assms by (simp add: calculate_file_hash_def)
  have a: "needs_transformation e files cfg sch
           = Inr (\<not> exists files (output_file_of cfg sch)
                  \<or> get_cache_info files cfg sch = []
                  \<or> map_of (get_cache_info files cfg sch) ''hash'' \<noteq> Some (md5 e bytes))"
    by (auto simp: needs_transformation_def Let_def h)
  have b: "needs_transformation e files cfg sch = Inr False"
    if "exists files (output_file_of cfg sch)"
      and "map_of (get_cache_info files cfg sch) ''hash'' = Some (md5 e bytes)"
    using that by (simp add: needs_transformation_def Let_def h)
  from a b show ?thesis by (simp add: get_cache_info_cases)
qed

text \<open>
  The source \<open>fresh\<close> of the example is up to date; changing one byte of it, or making its
  cache file unreadable, asks for a rebuild, and so does a source without an artifact.
\<close>

theorem needs_transformation_iff_witness:
  "read_file demo_disk (str (demo_sch ''fresh'')) = Some ''rules''
   \<and> needs_transformation demo_engine demo_disk demo_cfg (demo_sch ''fresh'') = Inr False
   \<and> needs_transformation demo_engine
        (demo_disk(''sch/fresh.sch'' := File True ''rulez'')) demo_cfg (demo_sch ''fresh'')
       = Inr True
   \<and> needs_transformation demo_engine
        (demo_disk(''cache/fresh.cache'' := File False [])) demo_cfg (demo_sch ''fresh'')
       = Inr True
   \<and> needs_transformation demo_engine demo_disk demo_cfg (demo_sch ''good'') = Inr True"
proof -
  have r: "read_file demo_disk (str (demo_sch ''fresh'')) = Some ''rules''" by code_simp
  have x: "exists demo_disk (output_file_of demo_cfg (demo_sch ''fresh''))" by code_simp
  have m: "map_of (get_cache_info demo_disk demo_cfg (demo_sch ''fresh'')) ''hash''
             = Some (md5 demo_engine ''rules'')" by code_simp
  from needs_transformation_iff[OF r, of demo_engine demo_cfg] x m
  have a: "needs_transformation demo_engine demo_disk demo_cfg (demo_sch ''fresh'') = Inr False"
    by blast
  have b: "needs_transformation demo_engine
        (demo_disk(''sch/fresh.sch'' := File True ''rulez'')) demo_cfg (demo_sch ''fresh'')
       = Inr True" by code_simp
  have c: "needs_transformation demo_engine
        (demo_disk(''cache/fresh.cache'' := File False [])) demo_cfg (demo_sch ''fresh'')
       = Inr True" by code_simp
  have d: "needs_transformation demo_engine demo_disk demo_cfg (demo_sch ''good'') = Inr True"
    by code_simp
  from r a b c d show ?thesis by simp
qed

text \<open>
  Claim C10.  When the generation of the stylesheets did not succeed, or no compiled
  stylesheet is found, or the samples directory is missing, or it holds no XML file,
  \<open>validate_samples\<close> returns the empty list, the check over its results holds, and the
  batch branch of \<open>main\<close> exits with status 0.
\<close>

theorem empty_batch_exits_zero:
  assumes "transform_all_schematron_files e files cfg force = Inr (generated, files1)"
      and "\<not> generated
           \<or> glob e files1 (output_dir cfg) ''*.xsl'' = []
           \<or> \<not> exists files1 samples_dir
           \<or> glob e files1 samples_dir ''*.xml'' = []"
  shows "validate_samples e files cfg v samples_dir force = Inr ([], files1, v)
       \<and> list_all result_valid []
       \<and> main_batch e files cfg v samples_dir force = 0"
  using assms by (auto simp: validate_samples_def main_batch_def Let_def)


text \<open>
  A disk without the ISO stylesheets (generation fails), and a disk where the only rule
  source is up to date but no compiled stylesheet is listed: both exit with 0.
\<close>

theorem empty_batch_exits_zero_witness:
  "transform_all_schematron_files demo_env demo_files demo_cfg False = Inr (False, demo_files)
   \<and> validate_samples demo_env demo_files demo_cfg demo_validator ''in'' False
       = Inr ([], demo_files, demo_validator)
   \<and> main_batch demo_env demo_files demo_cfg demo_validator ''in'' False = 0
   \<and> transform_all_schematron_files
        (demo_engine\<lparr> glob := (\<lambda>files d pat. if d = ''sch'' then [demo_sch ''fresh''] else []) \<rparr>)
        demo_disk demo_cfg False = Inr (True, demo_disk)
   \<and> main_batch
        (demo_engine\<lparr> glob := (\<lambda>files d pat. if d = ''sch'' then [demo_sch ''fresh''] else []) \<rparr>)
        demo_disk demo_cfg demo_validator ''in'' False = 0"
proof -
  define e2 where
    "e2 = demo_engine\<lparr> glob := (\<lambda>files d pat. if d = ''sch'' then [demo_sch ''fresh''] else []) \<rparr>"
  have q: "\<not> check_requirements demo_files demo_cfg" by code_simp
  then have g1: "transform_all_schematron_files demo_env demo_files demo_cfg False
                  = Inr (False, demo_files)"
    by (simp add: transform_all_schematron_files_def)
  from empty_batch_exits_zero[OF g1, of "''in''" demo_validator]
  have a: "validate_samples demo_env demo_files demo_cfg demo_validator ''in'' False
             = Inr ([], demo_files, demo_validator)
           \<and> main_batch demo_env demo_files demo_cfg demo_validator ''in'' False = 0"
    by simp
  have q2: "check_requirements demo_disk demo_cfg" by code_simp
  have n2: "needs_transformation e2 demo_disk demo_cfg (demo_sch ''fresh'') = Inr False"
    unfolding e2_def by code_simp
  have s2: "glob e2 demo_disk (schematron_dir demo_cfg) ''*.sch'' = [demo_sch ''fresh'']"
    by (simp add: e2_def demo_cfg_def)
  have g2: "transform_all_schematron_files e2 demo_disk demo_cfg False = Inr (True, demo_disk)"
    by (simp add: transform_all_schematron_files_def q2 s2 n2)
  have x2: "glob e2 demo_disk (output_dir demo_cfg) ''*.xsl'' = []"
    by (simp add: e2_def demo_cfg_def)
  from empty_batch_exits_zero[OF g2, of "''in''" demo_validator] x2
  have b: "main_batch e2 demo_disk demo_cfg demo_validator ''in'' False = 0"
    by simp
  from g1 a g2 b show ?thesis unfolding e2_def by simp
qed

lemma filter_length_all:
  "(length (filter P xs) = length xs) = list_all P xs"
proof (induction xs)
  case Nil
  show ?case by simp
next
  case (Cons x xs)
  have "length (filter P xs) \<le> length xs" by (rule length_filter_le)
  then have ne: "length (filter P xs) \<noteq> Suc (length xs)" by arith
  show ?case
  proof (cases "P x")
    case True
    with Cons show ?thesis by simp
  next
    case False
    with ne show ?thesis by simp
  qed
qed

lemma ended_ok_simps:
  "ended_ok Skipped" "ended_ok Compiled" "\<not> ended_ok Failed"
  by (simp_all add: ended_ok_def)

lemma loop_follows_outcomes:
  "outcomes e cfg force files xs = Inr os \<Longrightarrow>
   length os = length xs
   \<and> (\<exists>files'. transform_loop e cfg force (files, n) xs
                  = Inr (files', n + length (filter ended_ok os)))"
proof (induction xs arbitrary: files n os)
  case Nil
  then show ?case by simp
next
  case (Cons x xs)
  show ?case
  proof (cases "if force then Inr True else needs_transformation e files cfg x")
    case (Inl err)
    with Cons.prems show ?thesis by simp
  next
    case (Inr need)
    show ?thesis
    proof (cases need)
      case False
      with Inr Cons.prems obtain os' where
        o: "outcomes e cfg force files xs = Inr os'" and os: "os = Skipped # os'"
        by (cases "outcomes e cfg force files xs") auto
      from Cons.IH[OF o, of "Suc n"] obtain files' where
        "length os' = length xs"
        "transform_loop e cfg force (files, Suc n) xs
           = Inr (files', Suc n + length (filter ended_ok os'))"
        by blast
      with Inr False os show ?thesis by (simp add: ended_ok_simps)
    next
      case True
      obtain ok files1 where t: "transform_schematron_file e files cfg x = (ok, files1)"
        by (cases "transform_schematron_file e files cfg x")
      with Inr True Cons.prems obtain os' where
        o: "outcomes e cfg force files1 xs = Inr os'"
        and os: "os = (if ok then Compiled else Failed) # os'"
        by (cases "outcomes e cfg force files1 xs") auto
      from Cons.IH[OF o, of "if ok then Suc n else n"] obtain files' where
        "length os' = length xs"
        "transform_loop e cfg force (files1, if ok then Suc n else n) xs
           = Inr (files', (if ok then Suc n else n) + length (filter ended_ok os'))"
        by blast
      with Inr True t os show ?thesis by (cases ok) (simp_all add: ended_ok_simps)
    qed
  qed
qed

text \<open>
  Claim C5, as the code has it.  When the requirements hold, at least one rule source is
  found and no digest computation raises, every source is processed (\<open>outcomes\<close> has one
  entry per source, also after a failure), \<open>success_count\<close> is the number of sources that
  ended skipped or compiled, and the batch returns true exactly when every source ended so.
  Without \<open>force_rebuild\<close> an up-to-date source is skipped, leaves the disk as it is and
  counts as a success; a source whose compilation fails leaves the count as it is and the
  loop goes on with the rest.
\<close>

theorem batch_partial_failure:
  assumes "check_requirements files cfg"
      and "glob e files (schematron_dir cfg) ''*.sch'' = sch_files"
      and "sch_files \<noteq> []"
      and "outcomes e cfg force files sch_files = Inr os"
  shows "length os = length sch_files
       \<and> (\<exists>files'. transform_loop e cfg force (files, 0) sch_files
                      = Inr (files', length (filter ended_ok os)))
       \<and> (\<exists>files'. transform_all_schematron_files e files cfg force
                      = Inr (list_all ended_ok os, files'))
       \<and> (\<not> force \<and> needs_transformation e files0 cfg s = Inr False \<longrightarrow>
            transform_loop e cfg force (files0, n) (s # rest)
              = transform_loop e cfg force (files0, Suc n) rest
            \<and> outcomes e cfg force files0 (s # rest)
              = map_sum id (\<lambda>os. Skipped # os) (outcomes e cfg force files0 rest))
       \<and> ((force \<or> needs_transformation e files0 cfg s = Inr True)
            \<and> fst (transform_schematron_file e files0 cfg s) = False \<longrightarrow>
            transform_loop e cfg force (files0, n) (s # rest)
              = transform_loop e cfg force (snd (transform_schematron_file e files0 cfg s), n) rest
            \<and> outcomes e cfg force files0 (s # rest)
              = map_sum id (\<lambda>os. Failed # os)
                  (outcomes e cfg force (snd (transform_schematron_file e files0 cfg s)) rest))"
proof -
  from loop_follows_outcomes[OF assms(4), of 0] obtain files' where
    len: "length os = length sch_files"
    and loop: "transform_loop e cfg force (files, 0) sch_files
                 = Inr (files', length (filter ended_ok os))"
    by auto
  have all: "transform_all_schematron_files e files cfg force
               = Inr (list_all ended_ok os, files')"
    using assms(1,2,3) loop len filter_length_all[of ended_ok os]
    by (simp add: transform_all_schematron_files_def)
  have skip: "transform_loop e cfg force (files0, n) (s # rest)
              = transform_loop e cfg force (files0, Suc n) rest
            \<and> outcomes e cfg force files0 (s # rest)
              = map_sum id (\<lambda>os. Skipped # os) (outcomes e cfg force files0 rest)"
    if "\<not> force" "needs_transformation e files0 cfg s = Inr False"
    using that by simp
  have fail: "transform_loop e cfg force (files0, n) (s # rest)
              = transform_loop e cfg force (snd (transform_schematron_file e files0 cfg s), n) rest
            \<and> outcomes e cfg force files0 (s # rest)
              = map_sum id (\<lambda>os. Failed # os)
                  (outcomes e cfg force (snd (transform_schematron_file e files0 cfg s)) rest)"
    if "force \<or> needs_transformation e files0 cfg s = Inr True"
       "fst (transform_schematron_file e files0 cfg s) = False"
    using that by (cases "transform_schematron_file e files0 cfg s") auto
  from len loop all skip fail show ?thesis by blast
qed


text \<open>Three sources, one of which fails: 2 successes, 1 failure, overall result false.\<close>

theorem batch_partial_failure_witness:
  "check_requirements demo_disk demo_cfg
   \<and> outcomes demo_engine demo_cfg False demo_disk
         [demo_sch ''good'', demo_sch ''bad'', demo_sch ''fresh'']
       = Inr [Compiled, Failed, Skipped]
   \<and> map_sum id snd (transform_loop demo_engine demo_cfg False (demo_disk, 0)
         [demo_sch ''good'', demo_sch ''bad'', demo_sch ''fresh'']) = Inr 2
   \<and> map_sum id fst (transform_all_schematron_files demo_engine demo_disk demo_cfg False)
       = Inr False"
proof -
  have q: "check_requirements demo_disk demo_cfg" by code_simp
  have g: "glob demo_engine demo_disk (schematron_dir demo_cfg) ''*.sch''
             = [demo_sch ''good'', demo_sch ''bad'', demo_sch ''fresh'']"
    by (simp add: demo_engine_def demo_cfg_def)
  have n: "[demo_sch ''good'', demo_sch ''bad'', demo_sch ''fresh''] \<noteq> []" by simp
  have o: "outcomes demo_engine demo_cfg False demo_disk
             [demo_sch ''good'', demo_sch ''bad'', demo_sch ''fresh'']
           = Inr [Compiled, Failed, Skipped]" by code_simp
  have f: "length (filter ended_ok [Compiled, Failed, Skipped]) = 2"
    "list_all ended_ok [Compiled, Failed, Skipped] = False"
    by (simp_all add: ended_ok_def)
  from batch_partial_failure[OF q g n o]
  have l: "\<exists>files'. transform_loop demo_engine demo_cfg False (demo_disk, 0)
              [demo_sch ''good'', demo_sch ''bad'', demo_sch ''fresh'']
            = Inr (files', length (filter ended_ok [Compiled, Failed, Skipped]))"
    and al: "\<exists>files'. transform_all_schematron_files demo_engine demo_disk demo_cfg False
                        = Inr (list_all ended_ok [Compiled, Failed, Skipped], files')"
    by blast+
  from l obtain f1 where "transform_loop demo_engine demo_cfg False (demo_disk, 0)
              [demo_sch ''good'', demo_sch ''bad'', demo_sch ''fresh''] = Inr (f1, 2)"
    unfolding f by blast
  then have b: "map_sum id snd (transform_loop demo_engine demo_cfg False (demo_disk, 0)
         [demo_sch ''good'', demo_sch ''bad'', demo_sch ''fresh'']) = Inr 2"
    by simp
  from al obtain f2 where
    "transform_all_schematron_files demo_engine demo_disk demo_cfg False = Inr (False, f2)"
    unfolding f by blast
  then have c: "map_sum id fst
        (transform_all_schematron_files demo_engine demo_disk demo_cfg False) = Inr False"
    by simp
  from q o b c show ?thesis by simp
qed

text \<open>
  The claim as stated fails in two places.  With no rule source on disk every source (there
  is none) ended skipped or compiled, and the batch returns false.  With \<open>force_rebuild\<close>
  an up-to-date source is compiled again, not skipped.
\<close>

theorem batch_claim_counterexample:
  "check_requirements demo_disk demo_cfg
   \<and> glob demo_env demo_disk (schematron_dir demo_cfg) ''*.sch'' = []
   \<and> outcomes demo_env demo_cfg False demo_disk [] = Inr []
   \<and> list_all ended_ok []
   \<and> transform_all_schematron_files demo_env demo_disk demo_cfg False = Inr (False, demo_disk)
   \<and> needs_transformation demo_engine demo_disk demo_cfg (demo_sch ''fresh'') = Inr False
   \<and> outcomes demo_engine demo_cfg True demo_disk [demo_sch ''fresh''] = Inr [Compiled]"
proof -
  have q: "check_requirements demo_disk demo_cfg" by code_simp
  have g: "glob demo_env demo_disk (schematron_dir demo_cfg) ''*.sch'' = []"
    by (simp add: demo_env_def)
  have t: "transform_all_schematron_files demo_env demo_disk demo_cfg False
             = Inr (False, demo_disk)"
    by (simp add: transform_all_schematron_files_def q g)
  have n: "needs_transformation demo_engine demo_disk demo_cfg (demo_sch ''fresh'') = Inr False"
    by code_simp
  have o: "outcomes demo_engine demo_cfg True demo_disk [demo_sch ''fresh''] = Inr [Compiled]"
    by code_simp
  from q g t n o show ?thesis by simp
qed

section \<open>Properties of the namespace repair\<close>

lemma match_tag_Some:
  assumes "match_tag t s = Some m"
  shows "\<exists>b rest. m = t @ b @ ''>'' \<and> s = m @ rest \<and> CHR ''>'' \<notin> set b"
proof -
  let ?P = "\<lambda>c. c \<noteq> CHR ''>''"
  define r where "r = drop (length t) s"
  from assms have p: "prefix t s" and g: "CHR ''>'' \<in> set r"
    and m: "m = t @ takeWhile ?P r @ ''>''"
    by (auto simp: match_tag_def r_def split: if_splits)
  from p have s: "s = t @ r" by (auto simp: r_def prefix_def)
  from g have ne: "dropWhile ?P r \<noteq> []" by (auto simp: dropWhile_eq_Nil_conv)
  from hd_dropWhile[OF ne] have h: "hd (dropWhile ?P r) = CHR ''>''" by simp
  from ne h have d: "dropWhile ?P r = CHR ''>'' # tl (dropWhile ?P r)"
    by (cases "dropWhile ?P r") simp_all
  have "r = takeWhile ?P r @ dropWhile ?P r" by simp
  with d have r: "r = takeWhile ?P r @ CHR ''>'' # tl (dropWhile ?P r)" by simp
  have n: "CHR ''>'' \<notin> set (takeWhile ?P r)"
    by (auto dest: set_takeWhileD)
  have "s = m @ tl (dropWhile ?P r)"
    using s m r by (metis append.assoc append_Cons append_Nil)
  with m n show ?thesis by blast
qed

lemma occurrences_zero: "k \<noteq> [] \<Longrightarrow> (occurrences k s = 0) = (\<not> sublist k s)"
  by (induction s) (simp_all add: sublist_Cons_right)

lemma occurrences_declaration:
  assumes "\<not> sublist ''xmlns:xsd='' v"
  shows "occurrences ''xmlns:xsd='' (xsd_declaration @ CHR ''>'' # v) = 1"
proof -
  from assms have "occurrences ''xmlns:xsd='' v = 0" by (simp add: occurrences_zero)
  then show ?thesis by (simp add: xsd_declaration_def)
qed

lemma match_tag_prefix:
  assumes "prefix (t @ b @ ''>'') y"
  shows "match_tag t y \<noteq> None"
proof -
  from assms obtain z where "y = t @ b @ ''>'' @ z" by (auto simp: prefix_def)
  then show ?thesis by (simp add: match_tag_def)
qed


lemma match_root_here_Some:
  assumes "match_root_here s = Some m"
  shows "\<exists>b rest. (m = ''<xsl:stylesheet'' @ b @ ''>'' \<or> m = ''<stylesheet'' @ b @ ''>'')
                  \<and> s = m @ rest \<and> CHR ''>'' \<notin> set b"
proof (cases "match_tag ''<xsl:stylesheet'' s")
  case None
  with assms have "match_tag ''<stylesheet'' s = Some m" by (simp add: match_root_here_def)
  from match_tag_Some[OF this] show ?thesis by blast
next
  case (Some m')
  with assms have "match_tag ''<xsl:stylesheet'' s = Some m" by (simp add: match_root_here_def)
  from match_tag_Some[OF this] show ?thesis by blast
qed

lemma match_root_here_prefix:
  assumes "t = ''<xsl:stylesheet'' \<or> t = ''<stylesheet''" and "prefix (t @ b @ ''>'') y"
  shows "match_root_here y \<noteq> None"
proof (cases "match_tag ''<xsl:stylesheet'' y")
  case (Some a)
  then show ?thesis by (simp add: match_root_here_def)
next
  case None
  with assms(1) match_tag_prefix[OF assms(2)] have "t = ''<stylesheet''" by auto
  with match_tag_prefix[OF assms(2)] None show ?thesis by (simp add: match_root_here_def)
qed

lemma search_root_Some:
  "search_root s = Some m \<Longrightarrow>
   \<exists>pre post. s = pre @ m @ post \<and> match_root_here (m @ post) = Some m
      \<and> (\<forall>k < length pre. match_root_here (drop k s) = None)"
proof (induction s)
  case Nil
  then show ?case by simp
next
  case (Cons c cs)
  show ?case
  proof (cases "match_root_here (c # cs)")
    case (Some m')
    with Cons.prems have mm: "m' = m" by simp
    from match_root_here_Some[OF Some] mm obtain rest where "c # cs = m @ rest" by auto
    with Some mm have "c # cs = [] @ m @ rest \<and> match_root_here (m @ rest) = Some m
       \<and> (\<forall>k < length ([]::string). match_root_here (drop k (c # cs)) = None)" by simp
    then show ?thesis by blast
  next
    case None
    with Cons.prems have "search_root cs = Some m" by simp
    from Cons.IH[OF this] obtain pre post where
      cs: "cs = pre @ m @ post" and mh: "match_root_here (m @ post) = Some m"
      and mn: "\<forall>k < length pre. match_root_here (drop k cs) = None" by blast
    have "\<forall>k < length (c # pre). match_root_here (drop k (c # cs)) = None"
    proof (intro allI impI)
      fix k assume "k < length (c # pre)"
      then show "match_root_here (drop k (c # cs)) = None"
        using None mn by (cases k) simp_all
    qed
    with cs mh have "c # cs = (c # pre) @ m @ post \<and> match_root_here (m @ post) = Some m
      \<and> (\<forall>k < length (c # pre). match_root_here (drop k (c # cs)) = None)" by simp
    then show ?thesis by blast
  qed
qed

lemma match_root_here_Nil: "match_root_here [] = None"
  by (simp add: match_root_here_def match_tag_def)


lemma search_root_None:
  "search_root s = None \<Longrightarrow> match_root_here (drop k s) = None"
proof (induction s arbitrary: k)
  case Nil
  then show ?case by (simp add: match_root_here_Nil)
next
  case (Cons c cs)
  from Cons.prems have a: "match_root_here (c # cs) = None" and b: "search_root cs = None"
    by (simp_all split: option.splits)
  show ?case
  proof (cases k)
    case 0
    with a show ?thesis by simp
  next
    case (Suc j)
    with Cons.IH[OF b, of j] show ?thesis by simp
  qed
qed

lemma replace_first_here:
  "replace_first old new (old @ post) = new @ post"
proof (cases "old @ post")
  case Nil
  then show ?thesis by simp
next
  case (Cons a l)
  have p: "prefix old (a # l)" using Cons by (metis prefixI)
  have d: "drop (length old) (a # l) = post" using Cons by (metis append_eq_conv_conj)
  have "replace_first old new (a # l) = new @ post" using p d by simp
  with Cons show ?thesis by simp
qed

lemma replace_first_at:
  "(\<forall>k < length pre. \<not> prefix old (drop k (pre @ old @ post))) \<Longrightarrow>
   replace_first old new (pre @ old @ post) = pre @ new @ post"
proof (induction pre)
  case Nil
  show ?case using replace_first_here[of old new post] by simp
next
  case (Cons c pre)
  have "0 < length (c # pre)" by simp
  with Cons.prems have "\<not> prefix old (drop 0 ((c # pre) @ old @ post))" by blast
  then have a: "\<not> prefix old (c # pre @ old @ post)" by simp
  have "\<forall>k < length pre. \<not> prefix old (drop k (pre @ old @ post))"
  proof (intro allI impI)
    fix k assume "k < length pre"
    then have "Suc k < length (c # pre)" by simp
    with Cons.prems have "\<not> prefix old (drop (Suc k) ((c # pre) @ old @ post))" by blast
    then show "\<not> prefix old (drop k (pre @ old @ post))" by simp
  qed
  from Cons.IH[OF this] have "replace_first old new (pre @ old @ post) = pre @ new @ post" .
  with a show ?case by simp
qed


lemma prefix_skip:
  "d \<notin> set k \<Longrightarrow> prefix k (u @ d # y) = prefix k u"
proof (induction u arbitrary: k)
  case Nil
  show ?case
  proof (cases k)
    case Nil
    then show ?thesis by simp
  next
    case (Cons a k')
    with Nil.prems have "a \<noteq> d" by auto
    with Cons show ?thesis by simp
  qed
next
  case (Cons c u)
  show ?case
  proof (cases k)
    case Nil
    then show ?thesis by simp
  next
    case (Cons a k')
    with Cons.prems have "d \<notin> set k'" by simp
    from Cons.IH[OF this] Cons show ?thesis by simp
  qed
qed

lemma occurrences_insert:
  assumes "d \<notin> set k" and "k \<noteq> []" and "\<not> sublist k (u @ v)"
  shows "occurrences k (u @ d # ds @ v) = occurrences k (d # ds @ v)"
  using assms(3)
proof (induction u)
  case Nil
  show ?case by simp
next
  case (Cons c u)
  from Cons.prems have np: "\<not> prefix k (c # u @ v)" and ns: "\<not> sublist k (u @ v)"
    by (auto simp: sublist_Cons_right)
  from np have "\<not> prefix k (c # u)"
    by (metis append_Cons prefix_prefix)
  with prefix_skip[OF assms(1), of "c # u" "ds @ v"] have "\<not> prefix k (c # u @ d # ds @ v)" by simp
  with Cons.IH[OF ns] show ?case by simp
qed



lemma write_after_read:
  "read_file files p = Some c \<Longrightarrow> write_file files p c' = Some (files(p := File True c'))"
  by (auto simp: read_file_def write_file_def split: node.splits bool.splits)

lemma read_after_write: "read_file (files(p := File True c)) p = Some c"
  by (simp add: read_file_def)

lemma declaration_contains: "sublist ''xmlns:xsd='' xsd_declaration"
  by code_simp

lemma occurrences_after_insert:
  assumes "\<not> sublist ''xmlns:xsd='' (u @ v)"
  shows "occurrences ''xmlns:xsd='' (u @ xsd_declaration @ v)
           = occurrences ''xmlns:xsd='' (xsd_declaration @ v)"
proof -
  obtain ds where ds: "xsd_declaration = CHR '' '' # ds"
    by (simp add: xsd_declaration_def)
  have sp: "CHR '' '' \<notin> set ''xmlns:xsd=''" by simp
  have kne: "''xmlns:xsd='' \<noteq> []" by simp
  from occurrences_insert[OF sp kne assms, of ds] show ?thesis
    by (simp add: ds)
qed

text \<open>
  Claim C8.  Let the artifact be readable, without \<open>xmlns:xsd=\<close>, and with a tag name
  \<open><xsl:stylesheet\<close> or \<open><stylesheet\<close> that is followed by a \<open>>\<close> somewhere.  Then
  the repair writes the text back with the declaration put in front of the \<open>>\<close> that
  closes the first such opening tag (no opening tag starts further left), and changes
  nothing else; the repaired text holds \<open>xmlns:xsd=\<close> exactly once; and a second run of
  the repair on it returns false and leaves the file as it is.
\<close>

theorem namespace_repair:
  assumes "read_file files p = Some content"
      and "\<not> sublist ''xmlns:xsd='' content"
      and "content = a @ t @ b @ ''>'' @ c"
      and "t = ''<xsl:stylesheet'' \<or> t = ''<stylesheet''"
  shows "\<exists>pre tag post.
           content = pre @ tag @ ''>'' @ post
         \<and> (prefix ''<xsl:stylesheet'' tag \<or> prefix ''<stylesheet'' tag)
         \<and> CHR ''>'' \<notin> set tag
         \<and> length pre \<le> length a
         \<and> add_missing_xsd_namespace files p
             = (True, files(p := File True (pre @ tag @ xsd_declaration @ ''>'' @ post)))
         \<and> occurrences ''xmlns:xsd='' (pre @ tag @ xsd_declaration @ ''>'' @ post) = 1
         \<and> add_missing_xsd_namespace
               (files(p := File True (pre @ tag @ xsd_declaration @ ''>'' @ post))) p
             = (False, files(p := File True (pre @ tag @ xsd_declaration @ ''>'' @ post)))"
proof -
  let ?K = "''xmlns:xsd=''"
  have da: "drop (length a) content = t @ b @ ''>'' @ c"
    using assms(3) by simp
  have "prefix (t @ b @ ''>'') (drop (length a) content)"
    unfolding da by (simp add: prefix_def)
  from match_root_here_prefix[OF assms(4) this]
  have here: "match_root_here (drop (length a) content) \<noteq> None" .
  have "search_root content \<noteq> None"
  proof
    assume "search_root content = None"
    from search_root_None[OF this, of "length a"] here show False by simp
  qed
  then obtain m where sm: "search_root content = Some m" by blast
  from search_root_Some[OF sm] obtain pre post where
    cont: "content = pre @ m @ post"
    and mh: "match_root_here (m @ post) = Some m"
    and first: "\<forall>k < length pre. match_root_here (drop k content) = None"
    by blast
  have le: "length pre \<le> length a"
  proof (rule ccontr)
    assume "\<not> length pre \<le> length a"
    then have "length a < length pre" by simp
    with first have "match_root_here (drop (length a) content) = None" by blast
    with here show False by simp
  qed
  from match_root_here_Some[OF mh] obtain b' where
    mshape: "m = ''<xsl:stylesheet'' @ b' @ ''>'' \<or> m = ''<stylesheet'' @ b' @ ''>''"
    and nb: "CHR ''>'' \<notin> set b'"
    by blast
  define t' where "t' = (if m = ''<xsl:stylesheet'' @ b' @ ''>'' then ''<xsl:stylesheet''
                         else ''<stylesheet'')"
  have t'cases: "t' = ''<xsl:stylesheet'' \<or> t' = ''<stylesheet''"
    by (simp add: t'_def)
  have m: "m = t' @ b' @ ''>''"
    using mshape by (auto simp: t'_def)
  define tag where "tag = t' @ b'"
  have mt: "m = tag @ ''>''" by (simp add: m tag_def)
  have bl: "butlast m = tag" by (simp add: mt)
  have pt: "prefix ''<xsl:stylesheet'' tag \<or> prefix ''<stylesheet'' tag"
    using t'cases by (auto simp: tag_def)
  have nt: "CHR ''>'' \<notin> set tag"
    using t'cases nb by (auto simp: tag_def)
  have c1: "content = pre @ tag @ ''>'' @ post"
    by (simp add: cont mt)
  have noearlier: "\<forall>k < length pre. \<not> prefix m (drop k (pre @ m @ post))"
  proof (intro allI impI notI)
    fix k assume k: "k < length pre" and pr: "prefix m (drop k (pre @ m @ post))"
    from pr have "prefix (t' @ b' @ ''>'') (drop k content)" by (simp add: m cont)
    then have "match_root_here (drop k content) \<noteq> None"
      by (rule match_root_here_prefix[OF t'cases])
    moreover from first k have "match_root_here (drop k content) = None" by simp
    ultimately show False by simp
  qed
  define new where "new = pre @ tag @ xsd_declaration @ ''>'' @ post"
  have rep: "replace_first m (butlast m @ xsd_declaration @ ''>'') content = new"
    using replace_first_at[OF noearlier, of "butlast m @ xsd_declaration @ ''>''"]
    by (simp add: cont bl new_def)
  have w: "write_file files p new = Some (files(p := File True new))"
    by (rule write_after_read[OF assms(1)])
  have first_pass: "add_missing_xsd_namespace files p = (True, files(p := File True new))"
    by (simp add: add_missing_xsd_namespace_def assms(1) assms(2) sm Let_def rep w)
  have nsub_uv: "\<not> sublist ?K ((pre @ tag) @ (CHR ''>'' # post))"
    using assms(2) by (simp add: c1)
  have nsub_post: "\<not> sublist ?K post"
  proof
    assume "sublist ?K post"
    then obtain ps ss where "post = ps @ ?K @ ss" by (auto simp: sublist_def)
    then have "content = (pre @ tag @ ''>'' @ ps) @ ?K @ ss" by (simp add: c1)
    then have "\<exists>ps ss. content = ps @ ?K @ ss" by blast
    then have "sublist ?K content" unfolding sublist_def .
    with assms(2) show False by simp
  qed
  have "occurrences ?K ((pre @ tag) @ xsd_declaration @ CHR ''>'' # post)
          = occurrences ?K (xsd_declaration @ CHR ''>'' # post)"
    by (rule occurrences_after_insert[OF nsub_uv])
  with occurrences_declaration[OF nsub_post]
  have occ: "occurrences ?K new = 1" by (simp add: new_def)
  from declaration_contains obtain ps ss where d: "xsd_declaration = ps @ ?K @ ss"
    unfolding sublist_def by blast
  have "new = (pre @ tag @ ps) @ ?K @ (ss @ ''>'' @ post)"
    by (simp add: new_def d)
  then have "\<exists>ps ss. new = ps @ ?K @ ss" by blast
  then have has: "sublist ?K new" unfolding sublist_def .
  have second_pass: "add_missing_xsd_namespace (files(p := File True new)) p
                       = (False, files(p := File True new))"
    by (simp add: add_missing_xsd_namespace_def read_after_write has)
  from c1 pt nt le first_pass occ second_pass show ?thesis
    unfolding new_def by blast
qed


text \<open>
  A text with two opening tags: the declaration goes into the first one, once, and the
  second pass does nothing.
\<close>

theorem namespace_repair_witness:
  "\<not> sublist ''xmlns:xsd='' ''<a><xsl:stylesheet v=1><stylesheet>''
   \<and> fst (add_missing_xsd_namespace
          (demo_files(''xslt/a.xsl'' := File True ''<a><xsl:stylesheet v=1><stylesheet>''))
          ''xslt/a.xsl'') = True
   \<and> read_file (snd (add_missing_xsd_namespace
          (demo_files(''xslt/a.xsl'' := File True ''<a><xsl:stylesheet v=1><stylesheet>''))
          ''xslt/a.xsl'')) ''xslt/a.xsl''
       = Some (''<a><xsl:stylesheet v=1'' @ xsd_declaration @ ''><stylesheet>'')
   \<and> occurrences ''xmlns:xsd=''
         (''<a><xsl:stylesheet v=1'' @ xsd_declaration @ ''><stylesheet>'') = 1
   \<and> fst (add_missing_xsd_namespace
          (snd (add_missing_xsd_namespace
            (demo_files(''xslt/a.xsl'' := File True ''<a><xsl:stylesheet v=1><stylesheet>''))
            ''xslt/a.xsl''))
          ''xslt/a.xsl'') = False"
proof -
  define F where
    "F = demo_files(''xslt/a.xsl'' := File True ''<a><xsl:stylesheet v=1><stylesheet>'')"
  have r: "read_file F ''xslt/a.xsl'' = Some ''<a><xsl:stylesheet v=1><stylesheet>''"
    by (simp add: read_file_def F_def)
  have n: "\<not> sublist ''xmlns:xsd='' ''<a><xsl:stylesheet v=1><stylesheet>''"
    by code_simp
  have c: "''<a><xsl:stylesheet v=1><stylesheet>''
             = ''<a>'' @ ''<xsl:stylesheet'' @ '' v=1'' @ ''>'' @ ''<stylesheet>''"
    by simp
  have t: "''<xsl:stylesheet'' = ''<xsl:stylesheet'' \<or> ''<xsl:stylesheet'' = ''<stylesheet''"
    by simp
  from namespace_repair[OF r n c t] obtain x where
    "add_missing_xsd_namespace F ''xslt/a.xsl'' = (True, x)"
    by blast
  then have a: "fst (add_missing_xsd_namespace F ''xslt/a.xsl'') = True" by simp
  have b: "read_file (snd (add_missing_xsd_namespace F ''xslt/a.xsl'')) ''xslt/a.xsl''
       = Some (''<a><xsl:stylesheet v=1'' @ xsd_declaration @ ''><stylesheet>'')"
    unfolding F_def by code_simp
  have o: "occurrences ''xmlns:xsd=''
         (''<a><xsl:stylesheet v=1'' @ xsd_declaration @ ''><stylesheet>'') = 1"
    by code_simp
  have s: "fst (add_missing_xsd_namespace (snd (add_missing_xsd_namespace F ''xslt/a.xsl''))
          ''xslt/a.xsl'') = False"
    unfolding F_def by code_simp
  from n a b o s show ?thesis unfolding F_def by simp
qed

end
